theory Spec2Isabelle
  imports Complex_Main
begin

section \<open>Python values and exceptions\<close>

text \<open>
  The handler of \<^verbatim>\<open>dxpy/bindings/dxdatabase.py\<close> works on Python objects. The values that
  reach the functions modelled here are \<^verbatim>\<open>None\<close>, booleans, integers and text. A raised
  exception is a value of \<open>error\<close>; a function that can raise returns \<open>error + 'a\<close>, with
  \<open>Inl\<close> for the exception.
\<close>

datatype pyval = PyNone | PyBool bool | PyInt int | PyStr string

datatype error =
    ValueError
  | DXFileError
  | KeyError
  | IndexError
  | TypeError
  | OverflowError
  | APIError string

text \<open>
  Modelled from the spec: \<^verbatim>\<open>basestring\<close> of \<^verbatim>\<open>dxpy.compat\<close>, which is not among the sources;
  the spec calls its instances the text values.
\<close>

definition isinstance_basestring :: "pyval \<Rightarrow> bool" where
  "isinstance_basestring v = (case v of PyStr _ \<Rightarrow> True | _ \<Rightarrow> False)"

section \<open>The header validator\<close>

text \<open>
  A header mapping is a Python \<^verbatim>\<open>dict\<close>; \<^verbatim>\<open>headers.items()\<close> walks it in insertion order,
  so it is an association list here. The loop of \<^verbatim>\<open>_validate_headers\<close> raises at the first
  item whose key, and then whose value, is not a \<^verbatim>\<open>basestring\<close>.
\<close>

type_synonym headers = "(pyval \<times> pyval) list"

fun validate_headers_items :: "headers \<Rightarrow> error option" where
  "validate_headers_items [] = None"
| "validate_headers_items ((key, val) # rest) =
     (if \<not> isinstance_basestring key then Some ValueError
      else if \<not> isinstance_basestring val then Some ValueError
      else validate_headers_items rest)"

definition validate_headers :: "headers \<Rightarrow> error + headers" where
  "validate_headers hs =
     (case validate_headers_items hs of Some e \<Rightarrow> Inl e | None \<Rightarrow> Inr hs)"

section \<open>The size formatter\<close>

text \<open>
  \<^verbatim>\<open>_readable_part_size\<close> compares the integer \<^verbatim>\<open>num_bytes\<close> with the floats 1024, 1024^2,
  1024^3 and 1024^4 (Python compares an \<^verbatim>\<open>int\<close> with a \<^verbatim>\<open>float\<close> exactly), and formats
  either the integer itself or the float quotient \<^verbatim>\<open>B/KB\<close> with \<^verbatim>\<open>{0:.2f}\<close>.

  The quotient converts \<^verbatim>\<open>B\<close> to a double first: the nearest double, ties to even, and
  \<^verbatim>\<open>OverflowError\<close> when that is 2^1024 or more. The double of a non-negative integer is an
  integer again, so \<open>int_to_double\<close> returns it as one. Dividing it by a power of two is
  exact, and \<^verbatim>\<open>.2f\<close> prints the exact value rounded to hundredths, ties to even; so
  \<open>format_2f\<close> works on the exact fraction \<open>num / den\<close>.
\<close>

fun bitlen :: "nat \<Rightarrow> nat" where
  "bitlen n = (if n = 0 then 0 else Suc (bitlen (n div 2)))"

declare bitlen.simps [simp del]

definition round_half_even :: "nat \<Rightarrow> nat \<Rightarrow> nat" where
  "round_half_even num den =
     (let q = num div den; r = num mod den
      in if den < 2 * r \<or> (2 * r = den \<and> odd q) then q + 1 else q)"

text \<open>The value a conversion to a float with \<open>p\<close> bits of precision rounds \<open>n\<close> to.\<close>

definition nearest :: "nat \<Rightarrow> nat \<Rightarrow> nat" where
  "nearest p n = round_half_even n (2 ^ (bitlen n - p)) * 2 ^ (bitlen n - p)"

definition int_to_double :: "int \<Rightarrow> error + nat" where
  "int_to_double b =
     (let v = nearest 53 (nat b)
      in if 2 ^ 1024 \<le> v then Inl OverflowError else Inr v)"

definition digit_char :: "nat \<Rightarrow> char" where
  "digit_char d = ''0123456789'' ! d"

fun show_nat :: "nat \<Rightarrow> string" where
  "show_nat n = (if n < 10 then [digit_char n] else show_nat (n div 10) @ [digit_char (n mod 10)])"

declare show_nat.simps [simp del]

definition show_int :: "int \<Rightarrow> string" where
  "show_int i = (if i < 0 then CHR ''-'' # show_nat (nat (- i)) else show_nat (nat i))"

definition format_2f :: "nat \<Rightarrow> nat \<Rightarrow> string" where
  "format_2f num den =
     (let h = round_half_even (100 * num) den
      in show_nat (h div 100) @ ''.'' @ [digit_char (h div 10 mod 10), digit_char (h mod 10)])"

definition KB :: nat where "KB = 1024"
definition MB :: nat where "MB = KB * 1024"
definition GB :: nat where "GB = MB * 1024"
definition TB :: nat where "TB = GB * 1024"

definition float_quotient_2f :: "int \<Rightarrow> nat \<Rightarrow> string \<Rightarrow> error + pyval" where
  "float_quotient_2f b unit suffix =
     (case int_to_double b of
        Inl e \<Rightarrow> Inl e
      | Inr v \<Rightarrow> Inr (PyStr (format_2f v unit @ suffix)))"

definition readable_part_size :: "int \<Rightarrow> error + pyval" where
  "readable_part_size num_bytes =
     (let B = num_bytes in
      if B < int KB then
        Inr (PyStr (show_int B @ '' '' @ (if B \<noteq> 1 then ''bytes'' else ''byte'')))
      else if int KB \<le> B \<and> B < int MB then float_quotient_2f B KB '' KiB''
      else if int MB \<le> B \<and> B < int GB then float_quotient_2f B MB '' MiB''
      else if int GB \<le> B \<and> B < int TB then float_quotient_2f B GB '' GiB''
      else if int TB \<le> B then float_quotient_2f B TB '' TiB''
      else Inr PyNone)"

section \<open>The handler, its environment and the world around it\<close>

text \<open>
  The sentinel \<^verbatim>\<open>DXDatabase.NO_PROJECT_HINT = 'NO_PROJECT_HINT'\<close> is a string object, and
  \<^verbatim>\<open>get_download_url\<close> compares a project with it once by identity (\<^verbatim>\<open>is not\<close>) and once by
  value (\<^verbatim>\<open>!=\<close>). A string object is therefore either the sentinel object itself or some
  other object with a text of its own, which may spell the same characters.
\<close>

datatype strobj = NO_PROJECT_HINT | Str string

definition text_of :: "strobj \<Rightarrow> string" where
  "text_of s = (case s of NO_PROJECT_HINT \<Rightarrow> ''NO_PROJECT_HINT'' | Str t \<Rightarrow> t)"

type_synonym pydict = "(string \<times> pyval) list"

text \<open>
  The parsed answer of the API server to \<^verbatim>\<open>database_download_file\<close>: a JSON object whose
  keys \<^verbatim>\<open>url\<close>, \<^verbatim>\<open>headers\<close> and \<^verbatim>\<open>expires\<close> (milliseconds) may each be absent.
\<close>

record response =
  resp_url :: "string option"
  resp_headers :: "headers option"
  resp_expires :: "int option"

text \<open>
  What the process reads and never writes: the interpreter's major version
  (\<^verbatim>\<open>USING_PYTHON2\<close>), \<^verbatim>\<open>dxpy.JOB_ID\<close>, \<^verbatim>\<open>dxpy.WORKSPACE_ID\<close>, the two environment variables the
  handler looks at, and the two collaborators. \<^verbatim>\<open>object_exists_in_project\<close> and
  \<^verbatim>\<open>dxpy.api.database_download_file\<close> are not among the sources and are parameters here; the
  latter answers the \<open>n\<close>-th request made so far, given the object id, the arguments and the
  keyword options, and raises what the server makes it raise.
\<close>

record env =
  USING_PYTHON2 :: bool
  JOB_ID :: "string option"
  WORKSPACE_ID :: "strobj option"
  DX_JOB_ID_in_environ :: bool
  DX_DUMP_BILLED_PROJECT :: "string option"
  object_exists_in_project :: "string option \<Rightarrow> strobj \<Rightarrow> bool"
  database_download_file :: "nat \<Rightarrow> string option \<Rightarrow> pydict \<Rightarrow> pydict \<Rightarrow> error + response"

text \<open>
  What the handler shares with the rest of the process: the header dictionaries, which are
  mutable objects and live in a store (an address is an index of \<open>heap\<close>); the requests made
  to the transport so far; the files the diagnostic hook has written; and the characters of
  the remote object that \<^verbatim>\<open>read\<close> has not returned yet.
\<close>

record world =
  heap :: "headers list"
  requests :: "(string option \<times> pydict \<times> pydict) list"
  files :: "string \<Rightarrow> string option"
  unread :: string

text \<open>The attributes \<^verbatim>\<open>__init__\<close> sets, under their names without the leading underscore.\<close>

record DXDatabase =
  dxid :: "string option"
  proj :: "strobj option"
  binary_mode :: bool
  close_on_exit :: bool
  read_buf :: string
  read_bufsize :: nat
  expected_file_size :: "int option"
  file_is_mmapd :: bool
  download_url :: "string option"
  download_url_headers :: "nat option"
  download_url_expires :: "real option"

definition MIN_BUFFER_SIZE :: nat where
  "MIN_BUFFER_SIZE = 1024 * 1024"

definition DEFAULT_BUFFER_SIZE :: "env \<Rightarrow> nat" where
  "DEFAULT_BUFFER_SIZE e =
     (case JOB_ID e of
        None \<Rightarrow> 1024 * 1024 * 16
      | Some j \<Rightarrow> if j = [] then 1024 * 1024 * 16 else 1024 * 1024 * 96)"

definition FILE_REQUEST_TIMEOUT :: int where
  "FILE_REQUEST_TIMEOUT = 60"

section \<open>Construction and re-binding\<close>

text \<open>
  Modelled from the spec: \<^verbatim>\<open>DXDataObject.set_ids\<close> and \<^verbatim>\<open>DXDataObject.__init__\<close> of the base
  class, which are not among the sources. They bind the remote object reference: the object
  id and the project, which is \<^verbatim>\<open>dxpy.WORKSPACE_ID\<close> when none is given (the docstring of
  \<^verbatim>\<open>get_download_url\<close> says so). They know nothing of the attributes \<^verbatim>\<open>DXDatabase\<close> adds.
\<close>

definition DXDataObject_set_ids ::
  "env \<Rightarrow> string option \<Rightarrow> strobj option \<Rightarrow> DXDatabase \<Rightarrow> DXDatabase" where
  "DXDataObject_set_ids e d p h =
     h\<lparr>dxid := d, proj := (case p of None \<Rightarrow> WORKSPACE_ID e | Some q \<Rightarrow> Some q)\<rparr>"

text \<open>
  \<^verbatim>\<open>DXDatabase.set_ids\<close> calls the base class and does nothing else: what follows the
  comment \<^verbatim>\<open># Reset state\<close> is commented out.
\<close>

definition set_ids :: "env \<Rightarrow> string option \<Rightarrow> strobj option \<Rightarrow> DXDatabase \<Rightarrow> DXDatabase" where
  "set_ids e d p h = DXDataObject_set_ids e d p h"

text \<open>
  The mode of \<^verbatim>\<open>__init__\<close>: the pair of \<^verbatim>\<open>_binary_mode\<close> and \<^verbatim>\<open>_close_on_exit\<close>, or the
  \<^verbatim>\<open>ValueError\<close>. \<^verbatim>\<open>mode.replace("b", "")\<close> removes every \<^verbatim>\<open>b\<close>.
\<close>

definition parse_mode :: "string option \<Rightarrow> error + bool \<times> bool" where
  "parse_mode mode =
     (case mode of
        None \<Rightarrow> Inr (False, True)
      | Some m \<Rightarrow>
          let b = (CHR ''b'' \<in> set m);
              m' = (if b then filter (\<lambda>c. c \<noteq> CHR ''b'') m else m)
          in if m' \<notin> set [''r'', ''w'', ''a''] then Inl ValueError
             else Inr (b, m' = ''w''))"

definition DXDatabase_init ::
  "env \<Rightarrow> string option \<Rightarrow> strobj option \<Rightarrow> string option \<Rightarrow> nat option \<Rightarrow> int option \<Rightarrow> bool
     \<Rightarrow> error + DXDatabase" where
  "DXDatabase_init e d p mode read_buffer_size expected_size is_mmapd =
     (case parse_mode mode of
        Inl err \<Rightarrow> Inl err
      | Inr (b, c) \<Rightarrow>
          Inr (DXDataObject_set_ids e d p
            \<lparr>dxid = None, proj = None, binary_mode = b, close_on_exit = c, read_buf = [],
             read_bufsize = (case read_buffer_size of None \<Rightarrow> DEFAULT_BUFFER_SIZE e | Some n \<Rightarrow> n),
             expected_file_size = expected_size, file_is_mmapd = is_mmapd,
             download_url = None, download_url_headers = None, download_url_expires = None\<rparr>))"

section \<open>Line iteration\<close>

text \<open>
  \<^verbatim>\<open>splitlines\<close> without line ends. A byte string (Python 2) breaks at LF and CR; a text
  string (Python 3) also at VT, FF, FS, GS, RS and NEL (and at U+2028 and U+2029, which lie
  outside the 8-bit characters of this model). CR LF is one break. A last piece is a line
  only when it is not empty.
\<close>

definition linebreak :: "bool \<Rightarrow> char \<Rightarrow> bool" where
  "linebreak py2 c =
     (if py2 then c \<in> set [CHR 0x0A, CHR 0x0D]
      else c \<in> set [CHR 0x0A, CHR 0x0B, CHR 0x0C, CHR 0x0D, CHR 0x1C, CHR 0x1D, CHR 0x1E, CHR 0x85])"

fun splitlines_from :: "(char \<Rightarrow> bool) \<Rightarrow> string \<Rightarrow> string \<Rightarrow> string list" where
  "splitlines_from br cur [] = (if cur = [] then [] else [cur])"
| "splitlines_from br cur [c] = (if br c then [cur] else [cur @ [c]])"
| "splitlines_from br cur (c # d # cs) =
     (if br c then
        cur # (if c = CHR 0x0D \<and> d = CHR 0x0A then splitlines_from br [] cs
               else splitlines_from br [] (d # cs))
      else splitlines_from br (cur @ [c]) (d # cs))"

definition splitlines :: "bool \<Rightarrow> string \<Rightarrow> string list" where
  "splitlines py2 s = splitlines_from (linebreak py2) [] s"

text \<open>
  Modelled from the spec: \<^verbatim>\<open>read\<close>, which \<^verbatim>\<open>__iter__\<close> calls and the sources do not define.
  It returns up to \<open>n\<close> characters of what is left of the object, and the empty string at
  the end of the object.
\<close>

definition read :: "nat \<Rightarrow> world \<Rightarrow> string \<times> world" where
  "read n w = (take n (unread w), w\<lparr>unread := drop n (unread w)\<rparr>)"

text \<open>
  The \<^verbatim>\<open>while not done\<close> loop of \<^verbatim>\<open>__iter__\<close>, the same in both branches but for the string
  type. It returns the lines it yields, the buffer it ends with and what is left of the
  object. \<^verbatim>\<open>lines[len(lines) - 1]\<close> of an empty list is \<^verbatim>\<open>lines[-1]\<close>, an \<^verbatim>\<open>IndexError\<close>.
\<close>

function iter_loop :: "bool \<Rightarrow> nat \<Rightarrow> string \<Rightarrow> string \<Rightarrow> error + string list \<times> string \<times> string" where
  "iter_loop py2 n buf rest =
     (if CHR 0x0A \<in> set buf then
        (let lines = splitlines py2 buf in
         if lines = [] then Inl IndexError
         else (case iter_loop py2 n (last lines) rest of
                 Inl e \<Rightarrow> Inl e
               | Inr (ys, b, r) \<Rightarrow> Inr (butlast lines @ ys, b, r)))
      else
        (let more = take n rest in
         if more = [] then Inr ([], buf, drop n rest)
         else iter_loop py2 n (buf @ more) (drop n rest)))"
  by pat_completeness auto

text \<open>
  The loop ends: a line of \<^verbatim>\<open>splitlines\<close> holds no line feed, so a buffer with a line feed is
  followed by one without, and a buffer without one is followed by a shorter rest.
\<close>

lemma splitlines_from_chars:
  "l \<in> set (splitlines_from br cur s) \<Longrightarrow> c \<in> set l \<Longrightarrow> c \<in> set cur \<or> \<not> br c"
  by (induction br cur s arbitrary: l rule: splitlines_from.induct) (auto split: if_splits)

lemma splitlines_no_linefeed:
  assumes "l \<in> set (splitlines py2 s)"
  shows "CHR 0x0A \<notin> set l"
proof
  assume "CHR 0x0A \<in> set l"
  with assms have "\<not> linebreak py2 (CHR 0x0A)"
    unfolding splitlines_def by (auto dest: splitlines_from_chars)
  then show False
    by (cases py2) (simp_all add: linebreak_def)
qed

termination iter_loop
proof (relation "measure (\<lambda>(py2, n, buf, rest). 2 * length rest + (if CHR 0x0A \<in> set buf then 1 else 0))",
    goal_cases)
  case 1
  show ?case by simp
next
  case (2 py2 n buf rest lines)
  then have "last lines \<in> set (splitlines py2 buf)"
    by simp
  then have "CHR 0x0A \<notin> set (last lines)"
    by (rule splitlines_no_linefeed)
  with 2 show ?case by simp
next
  case (3 py2 n buf rest more)
  then have "length (drop n rest) < length rest"
    by (cases rest; cases n) auto
  then show ?case by simp
qed

declare iter_loop.simps [simp del]

text \<open>
  \<^verbatim>\<open>__iter__\<close> is a generator; what it yields, in order, is a list here, and an exception
  it raises replaces the list (every \<^verbatim>\<open>raise\<close> of the source comes before the first
  \<^verbatim>\<open>yield\<close>). The first \<^verbatim>\<open>read\<close> comes before the check of the binary flag, and the check
  is made in the Python 3 branch only.
\<close>

definition finish_lines :: "world \<Rightarrow> error + string list \<times> string \<times> string \<Rightarrow> (error + string list) \<times> world" where
  "finish_lines w r =
     (case r of
        Inl e \<Rightarrow> (Inl e, w)
      | Inr (ys, b, rest) \<Rightarrow> (Inr (ys @ (if b \<noteq> [] then [b] else [])), w\<lparr>unread := rest\<rparr>))"

definition DXDatabase_iter :: "env \<Rightarrow> DXDatabase \<Rightarrow> world \<Rightarrow> (error + string list) \<times> world" where
  "DXDatabase_iter e h w =
     (let (buffer, w1) = read (read_bufsize h) w in
      if USING_PYTHON2 e then
        finish_lines w1 (iter_loop True (read_bufsize h) buffer (unread w1))
      else if binary_mode h then (Inl DXFileError, w1)
      else finish_lines w1 (iter_loop False (read_bufsize h) buffer (unread w1)))"

section \<open>The download credential\<close>

text \<open>
  The arguments of one call of \<^verbatim>\<open>get_download_url\<close>. \<^verbatim>\<open>filename\<close> is accepted and never
  read: the source sends \<^verbatim>\<open>src_filename\<close> under the key \<^verbatim>\<open>filename\<close>.
\<close>

record call =
  duration :: "int option"
  preauthenticated :: bool
  filename :: "string option"
  src_filename :: "string option"
  project :: "strobj option"
  kwargs :: pydict

text \<open>
  The project hint. Without a project and outside a job, the project of the handler is
  taken when it is a non-empty string and \<^verbatim>\<open>object_exists_in_project\<close> says the object is in
  it. \<^verbatim>\<open>get_id\<close> and \<^verbatim>\<open>get_proj_id\<close> of the base class return the bound id and project.
\<close>

definition resolve_project :: "env \<Rightarrow> DXDatabase \<Rightarrow> strobj option \<Rightarrow> strobj option" where
  "resolve_project e h p =
     (if p = None \<and> \<not> DX_JOB_ID_in_environ e then
        (case proj h of
           None \<Rightarrow> p
         | Some project_from_handler \<Rightarrow>
             if text_of project_from_handler \<noteq> []
               \<and> object_exists_in_project e (dxid h) project_from_handler
             then Some project_from_handler else p)
      else p)"

text \<open>
  The dictionary \<^verbatim>\<open>args\<close>, in insertion order. The project goes in unless it is \<^verbatim>\<open>None\<close> or
  is the sentinel object (\<^verbatim>\<open>is not\<close>: identity).
\<close>

definition build_args :: "call \<Rightarrow> strobj option \<Rightarrow> pydict" where
  "build_args c p =
     [(''preauthenticated'', PyBool (preauthenticated c))]
     @ (case duration c of None \<Rightarrow> [] | Some d \<Rightarrow> [(''duration'', PyInt d)])
     @ (case src_filename c of None \<Rightarrow> [] | Some f \<Rightarrow> [(''filename'', PyStr f)])
     @ (case p of
          None \<Rightarrow> []
        | Some q \<Rightarrow> if q \<noteq> NO_PROJECT_HINT then [(''projectContext'', PyStr (text_of q))] else [])"

text \<open>
  The test hook: with \<^verbatim>\<open>_DX_DUMP_BILLED_PROJECT\<close> set, the file it names is opened for
  writing, and the project is written unless it is \<^verbatim>\<open>None\<close> or equals the sentinel
  (\<^verbatim>\<open>!=\<close>: value).
\<close>

definition dump_billed_project :: "env \<Rightarrow> strobj option \<Rightarrow> world \<Rightarrow> world" where
  "dump_billed_project e p w =
     (case DX_DUMP_BILLED_PROJECT e of
        None \<Rightarrow> w
      | Some path \<Rightarrow>
          w\<lparr>files := (files w)(path \<mapsto>
            (case p of
               None \<Rightarrow> []
             | Some q \<Rightarrow> if text_of q \<noteq> text_of NO_PROJECT_HINT then text_of q else []))\<rparr>)"

text \<open>
  The test \<^verbatim>\<open>self._download_url is None or self._download_url_expires < time.time()\<close> at
  clock reading \<open>t\<close>. With a URL and no expiry, Python 2 orders \<^verbatim>\<open>None\<close> below every number
  and Python 3 raises \<^verbatim>\<open>TypeError\<close>.
\<close>

definition refresh_needed :: "env \<Rightarrow> DXDatabase \<Rightarrow> real \<Rightarrow> error + bool" where
  "refresh_needed e h t =
     (case download_url h of
        None \<Rightarrow> Inr True
      | Some u \<Rightarrow>
          (case download_url_expires h of
             None \<Rightarrow> if USING_PYTHON2 e then Inr True else Inl TypeError
           | Some x \<Rightarrow> Inr (x < t)))"

definition with_timeout :: "pydict \<Rightarrow> pydict" where
  "with_timeout kw =
     (if map_of kw ''timeout'' = None then kw @ [(''timeout'', PyInt FILE_REQUEST_TIMEOUT)] else kw)"

text \<open>
  The body of the \<^verbatim>\<open>if\<close>: one request to the transport, then the three assignments in the
  order of the source, so that an exception leaves the earlier ones done. The headers of
  the response (or the fresh \<^verbatim>\<open>{}\<close>) are a dictionary object, which gets an address; the
  validator returns that same object, and the handler keeps the address. The quotient
  \<^verbatim>\<open>resp["expires"]/1000\<close> is a true division (\<^verbatim>\<open>from __future__ import division\<close>), taken here
  over the reals.
\<close>

definition fetch_url ::
  "env \<Rightarrow> call \<Rightarrow> pydict \<Rightarrow> DXDatabase \<times> world \<Rightarrow> error option \<times> DXDatabase \<times> world" where
  "fetch_url e c args s =
     (let h = fst s; w = snd s;
          kw = with_timeout (kwargs c);
          w1 = w\<lparr>requests := requests w @ [(dxid h, args, kw)]\<rparr>
      in case database_download_file e (length (requests w)) (dxid h) args kw of
           Inl err \<Rightarrow> (Some err, h, w1)
         | Inr resp \<Rightarrow>
             (case resp_url resp of
                None \<Rightarrow> (Some KeyError, h, w1)
              | Some u \<Rightarrow>
                  let h1 = h\<lparr>download_url := Some u\<rparr>;
                      hs = (case resp_headers resp of None \<Rightarrow> [] | Some x \<Rightarrow> x);
                      a = length (heap w1);
                      w2 = w1\<lparr>heap := heap w1 @ [hs]\<rparr>
                  in case validate_headers hs of
                       Inl err \<Rightarrow> (Some err, h1, w2)
                     | Inr checked \<Rightarrow>
                         let h2 = h1\<lparr>download_url_headers := Some a\<rparr>
                         in if preauthenticated c then
                              (case resp_expires resp of
                                 None \<Rightarrow> (Some KeyError, h2, w2)
                               | Some ms \<Rightarrow>
                                   (None, h2\<lparr>download_url_expires := Some (real_of_int ms / 1000 - 60)\<rparr>, w2))
                            else (None, h2\<lparr>download_url_expires := Some 32503680000\<rparr>, w2)))"

text \<open>\<^verbatim>\<open>copy.copy\<close> of the cached headers: a new dictionary object with the same items.\<close>

definition copy_copy :: "nat option \<Rightarrow> world \<Rightarrow> nat option \<times> world" where
  "copy_copy r w =
     (case r of
        None \<Rightarrow> (None, w)
      | Some a \<Rightarrow> (Some (length (heap w)), w\<lparr>heap := heap w @ [heap w ! a]\<rparr>))"

text \<open>
  \<^verbatim>\<open>get_download_url\<close> at clock reading \<open>t\<close>: the result, or the exception, and the handler
  and the world it leaves. Logging is left out.
\<close>

definition get_download_url ::
  "env \<Rightarrow> call \<Rightarrow> real \<Rightarrow> DXDatabase \<times> world
     \<Rightarrow> (error + string option \<times> nat option) \<times> DXDatabase \<times> world" where
  "get_download_url e c t s =
     (let h = fst s;
          p = resolve_project e h (project c);
          args = build_args c p;
          w = dump_billed_project e p (snd s)
      in case refresh_needed e h t of
           Inl err \<Rightarrow> (Inl err, h, w)
         | Inr need \<Rightarrow>
             (case (if need then fetch_url e c args (h, w) else (None, h, w)) of
                (Some err, h1, w1) \<Rightarrow> (Inl err, h1, w1)
              | (None, h1, w1) \<Rightarrow>
                  let (retval_headers, w2) = copy_copy (download_url_headers h1) w1
                  in (Inr (download_url h1, retval_headers), h1, w2)))"

text \<open>
  Several threads on one handler. Everything that reads or writes the cached triple, and
  the request to the transport, happens while the thread holds \<^verbatim>\<open>_url_download_mutex\<close>;
  what a call does before it takes the mutex depends on its own arguments, the bound
  reference and the environment only. So a run of the threads is the calls one after the
  other, in the order in which they take the mutex, each with the clock reading it makes
  there; the threads may take the mutex in any order.
\<close>

fun run_calls ::
  "env \<Rightarrow> (call \<times> real) list \<Rightarrow> DXDatabase \<times> world
     \<Rightarrow> (error + string option \<times> nat option) list \<times> DXDatabase \<times> world" where
  "run_calls e [] s = ([], s)"
| "run_calls e ((c, t) # cs) s =
     (let (r, s1) = get_download_url e c t s;
          (rs, s2) = run_calls e cs s1
      in (r # rs, s2))"

text \<open>A caller that changes a headers dictionary it holds: \<^verbatim>\<open>d[k] = v\<close> at address \<open>a\<close>.\<close>

definition dict_setitem :: "nat \<Rightarrow> pyval \<Rightarrow> pyval \<Rightarrow> world \<Rightarrow> world" where
  "dict_setitem a k v w =
     w\<lparr>heap := (heap w)[a := (if k \<in> fst ` set (heap w ! a)
                                then map (\<lambda>(k', v'). if k' = k then (k', v) else (k', v')) (heap w ! a)
                                else heap w ! a @ [(k, v)])]\<rparr>"

section \<open>A concrete server, handler and world\<close>

text \<open>
  A server that answers every request, the first with one URL and every later one with
  another, each valid until 1700000090 seconds (in milliseconds); a handler bound to an
  object in a project that does not hold it; an empty world.
\<close>

definition ex_response :: "nat \<Rightarrow> response" where
  "ex_response n =
     \<lparr>resp_url = Some (if n = 0 then ''https://dl.example/first'' else ''https://dl.example/later''),
      resp_headers = Some [(PyStr ''Range'', PyStr ''bytes=0-'')],
      resp_expires = Some 1700000090000\<rparr>"

definition ex_env :: env where
  "ex_env =
     \<lparr>USING_PYTHON2 = False, JOB_ID = None, WORKSPACE_ID = None,
      DX_JOB_ID_in_environ = False, DX_DUMP_BILLED_PROJECT = Some ''/tmp/billed'',
      object_exists_in_project = (\<lambda>d p. False),
      database_download_file = (\<lambda>n d args kw. Inr (ex_response n))\<rparr>"

definition ex_handler :: DXDatabase where
  "ex_handler =
     \<lparr>dxid = Some ''database-A'', proj = Some (Str ''project-P''), binary_mode = False,
      close_on_exit = False, read_buf = [], read_bufsize = 16, expected_file_size = None,
      file_is_mmapd = False, download_url = None, download_url_headers = None,
      download_url_expires = None\<rparr>"

definition ex_world :: world where
  "ex_world = \<lparr>heap = [], requests = [], files = (\<lambda>path. None), unread = []\<rparr>"

definition ex_call :: "bool \<Rightarrow> strobj option \<Rightarrow> call" where
  "ex_call pre p =
     \<lparr>duration = None, preauthenticated = pre, filename = None, src_filename = None,
      project = p, kwargs = []\<rparr>"

text \<open>The same handler with a credential in its cache, valid until 1700000030.\<close>

definition ex_cached_handler :: DXDatabase where
  "ex_cached_handler =
     ex_handler\<lparr>download_url := Some ''https://dl.example/first'', download_url_headers := Some 0,
       download_url_expires := Some 1700000030\<rparr>"

definition ex_cached_world :: world where
  "ex_cached_world = ex_world\<lparr>heap := [[(PyStr ''Range'', PyStr ''bytes=0-'')]]\<rparr>"

section \<open>Properties of the header validator\<close>

lemma validate_headers_items_None:
  "validate_headers_items hs = None \<longleftrightarrow>
     list_all (\<lambda>(k, v). isinstance_basestring k \<and> isinstance_basestring v) hs"
  by (induction hs rule: validate_headers_items.induct) auto

lemma validate_headers_items_error:
  "validate_headers_items hs = Some e \<Longrightarrow> e = ValueError"
  by (induction hs rule: validate_headers_items.induct) (auto split: if_splits)

text \<open>
  Claim C5. For every header mapping, \<^verbatim>\<open>_validate_headers\<close> raises (\<^verbatim>\<open>ValueError\<close>, the
  spec's \<open>ValidationError\<close>) when some key or some value is not a text value, and otherwise,
  the empty mapping included, returns the mapping it was given. The function reads its
  argument only: it has no state to change.
\<close>

theorem validate_headers_total:
  "validate_headers hs =
     (if \<exists>(k, v) \<in> set hs. \<not> isinstance_basestring k \<or> \<not> isinstance_basestring v
      then Inl ValueError else Inr hs)"
proof (cases "validate_headers_items hs")
  case None
  then have "list_all (\<lambda>(k, v). isinstance_basestring k \<and> isinstance_basestring v) hs"
    by (simp add: validate_headers_items_None)
  then have "\<not> (\<exists>(k, v) \<in> set hs. \<not> isinstance_basestring k \<or> \<not> isinstance_basestring v)"
    by (auto simp: list_all_iff)
  with None show ?thesis
    by (simp add: validate_headers_def)
next
  case (Some e)
  then have e: "e = ValueError"
    by (rule validate_headers_items_error)
  from Some have "\<not> list_all (\<lambda>(k, v). isinstance_basestring k \<and> isinstance_basestring v) hs"
    by (simp add: validate_headers_items_None [symmetric])
  then have "\<exists>(k, v) \<in> set hs. \<not> isinstance_basestring k \<or> \<not> isinstance_basestring v"
    by (auto simp: list_all_iff)
  with Some e show ?thesis
    by (simp add: validate_headers_def)
qed

theorem validate_headers_total_witness:
  "validate_headers [(PyStr ''Range'', PyStr ''bytes=0-9''), (PyStr ''Retries'', PyInt 3)]
     = Inl ValueError
   \<and> validate_headers [(PyStr ''Range'', PyStr ''bytes=0-9'')]
     = Inr [(PyStr ''Range'', PyStr ''bytes=0-9'')]
   \<and> validate_headers [] = Inr []"
  using validate_headers_total [of "[(PyStr ''Range'', PyStr ''bytes=0-9''), (PyStr ''Retries'', PyInt 3)]"]
    validate_headers_total [of "[(PyStr ''Range'', PyStr ''bytes=0-9'')]"]
    validate_headers_total [of "[]"]
  by (simp add: isinstance_basestring_def)

section \<open>Properties of construction\<close>

lemma parse_mode_Some:
  "parse_mode (Some m) =
     (if filter (\<lambda>c. c \<noteq> CHR ''b'') m \<in> {''r'', ''w'', ''a''}
      then Inr (CHR ''b'' \<in> set m, filter (\<lambda>c. c \<noteq> CHR ''b'') m = ''w'')
      else Inl ValueError)"
proof (cases "CHR ''b'' \<in> set m")
  case True
  then show ?thesis
    by (simp add: parse_mode_def Let_def)
next
  case False
  then have "filter (\<lambda>c. c \<noteq> CHR ''b'') m = m"
    by (induction m) auto
  with False show ?thesis
    by (simp add: parse_mode_def Let_def)
qed

lemma DXDataObject_set_ids_keeps [simp]:
  "binary_mode (DXDataObject_set_ids e d p h) = binary_mode h"
  "close_on_exit (DXDataObject_set_ids e d p h) = close_on_exit h"
  "read_buf (DXDataObject_set_ids e d p h) = read_buf h"
  "read_bufsize (DXDataObject_set_ids e d p h) = read_bufsize h"
  "download_url (DXDataObject_set_ids e d p h) = download_url h"
  "download_url_headers (DXDataObject_set_ids e d p h) = download_url_headers h"
  "download_url_expires (DXDataObject_set_ids e d p h) = download_url_expires h"
  by (simp_all add: DXDataObject_set_ids_def)

text \<open>
  Claim C7. With a mode string, \<^verbatim>\<open>__init__\<close> removes the binary flag \<^verbatim>\<open>b\<close> and raises
  (\<^verbatim>\<open>ValueError\<close>, the spec's \<open>InvalidArgument\<close>) exactly when what is left is none of \<^verbatim>\<open>r\<close>,
  \<^verbatim>\<open>w\<close>, \<^verbatim>\<open>a\<close>; an accepted mode sets the binary flag when it held a \<^verbatim>\<open>b\<close>. Without a
  mode the handler is built, in text mode, and is marked to close on exit.
\<close>

theorem DXDatabase_init_mode:
  "(DXDatabase_init e d p (Some m) n x f = Inl ValueError
      \<longleftrightarrow> filter (\<lambda>c. c \<noteq> CHR ''b'') m \<notin> {''r'', ''w'', ''a''})
   \<and> (filter (\<lambda>c. c \<noteq> CHR ''b'') m \<in> {''r'', ''w'', ''a''}
      \<longrightarrow> (\<exists>h. DXDatabase_init e d p (Some m) n x f = Inr h
            \<and> binary_mode h = (CHR ''b'' \<in> set m)
            \<and> close_on_exit h = (filter (\<lambda>c. c \<noteq> CHR ''b'') m = ''w'')))
   \<and> (\<exists>h. DXDatabase_init e d p None n x f = Inr h \<and> close_on_exit h \<and> \<not> binary_mode h)"
proof (intro conjI)
  show "DXDatabase_init e d p (Some m) n x f = Inl ValueError
      \<longleftrightarrow> filter (\<lambda>c. c \<noteq> CHR ''b'') m \<notin> {''r'', ''w'', ''a''}"
    by (simp add: DXDatabase_init_def parse_mode_Some)
  show "filter (\<lambda>c. c \<noteq> CHR ''b'') m \<in> {''r'', ''w'', ''a''}
      \<longrightarrow> (\<exists>h. DXDatabase_init e d p (Some m) n x f = Inr h
            \<and> binary_mode h = (CHR ''b'' \<in> set m)
            \<and> close_on_exit h = (filter (\<lambda>c. c \<noteq> CHR ''b'') m = ''w''))"
    by (simp add: DXDatabase_init_def parse_mode_Some)
  show "\<exists>h. DXDatabase_init e d p None n x f = Inr h \<and> close_on_exit h \<and> \<not> binary_mode h"
    by (simp add: DXDatabase_init_def parse_mode_def)
qed

theorem DXDatabase_init_mode_witness:
  "DXDatabase_init ex_env (Some ''database-A'') None (Some ''rw'') None None False = Inl ValueError
   \<and> DXDatabase_init ex_env (Some ''database-A'') None (Some ''b'') None None False = Inl ValueError
   \<and> (\<exists>h. DXDatabase_init ex_env (Some ''database-A'') None (Some ''rb'') None None False = Inr h
        \<and> binary_mode h \<and> \<not> close_on_exit h)
   \<and> (\<exists>h. DXDatabase_init ex_env (Some ''database-A'') None (Some ''bwb'') None None False = Inr h
        \<and> binary_mode h \<and> close_on_exit h)
   \<and> (\<exists>h. DXDatabase_init ex_env (Some ''database-A'') None None None None False = Inr h
        \<and> close_on_exit h \<and> \<not> binary_mode h)"
  using DXDatabase_init_mode [of ex_env "Some ''database-A''" None "''rw''" None None False]
    DXDatabase_init_mode [of ex_env "Some ''database-A''" None "''b''" None None False]
    DXDatabase_init_mode [of ex_env "Some ''database-A''" None "''rb''" None None False]
    DXDatabase_init_mode [of ex_env "Some ''database-A''" None "''bwb''" None None False]
  by simp

section \<open>Properties of the download credential\<close>

lemma dump_billed_project_keeps [simp]:
  "heap (dump_billed_project e p w) = heap w"
  "requests (dump_billed_project e p w) = requests w"
  "unread (dump_billed_project e p w) = unread w"
  by (simp_all add: dump_billed_project_def split: option.splits)

text \<open>A filled cache: URL \<open>u\<close>, headers at the allocated address \<open>a\<close>, expiry \<open>x\<close>.\<close>

definition cached :: "DXDatabase \<Rightarrow> world \<Rightarrow> string \<Rightarrow> nat \<Rightarrow> real \<Rightarrow> bool" where
  "cached h w u a x \<longleftrightarrow>
     download_url h = Some u \<and> download_url_headers h = Some a \<and> a < length (heap w)
     \<and> download_url_expires h = Some x"

lemma get_download_url_hit:
  assumes "cached h w u a x" and "t \<le> x"
  shows "get_download_url e c t (h, w) =
    (Inr (Some u, Some (length (heap w))), h,
     (dump_billed_project e (resolve_project e h (project c)) w)\<lparr>heap := heap w @ [heap w ! a]\<rparr>)"
  using assms
  by (simp add: cached_def get_download_url_def refresh_needed_def copy_copy_def Let_def)

lemma run_calls_hits:
  assumes "cached h w u a x" and "\<forall>(c, t) \<in> set cs. t \<le> x"
  shows "\<exists>w'. run_calls e cs (h, w) =
      (map (\<lambda>i. Inr (Some u, Some (length (heap w) + i))) [0..<length cs], h, w')
    \<and> requests w' = requests w
    \<and> heap w' = heap w @ replicate (length cs) (heap w ! a)"
  using assms
proof (induction cs arbitrary: w)
  case Nil
  then show ?case by simp
next
  case (Cons ct cs)
  obtain c t where ct: "ct = (c, t)"
    by (cases ct)
  define w1 where
    "w1 = (dump_billed_project e (resolve_project e h (project c)) w)\<lparr>heap := heap w @ [heap w ! a]\<rparr>"
  from Cons.prems ct have step: "get_download_url e c t (h, w) = (Inr (Some u, Some (length (heap w))), h, w1)"
    unfolding w1_def by (intro get_download_url_hit) auto
  have w1: "heap w1 = heap w @ [heap w ! a]" "requests w1 = requests w"
    by (simp_all add: w1_def)
  from Cons.prems have a: "a < length (heap w)"
    by (simp add: cached_def)
  with Cons.prems w1 have "cached h w1 u a x"
    by (simp add: cached_def)
  moreover from Cons.prems have "\<forall>(c, t) \<in> set cs. t \<le> x"
    by simp
  ultimately obtain w' where run: "run_calls e cs (h, w1) =
      (map (\<lambda>i. Inr (Some u, Some (length (heap w1) + i))) [0..<length cs], h, w')"
    and req: "requests w' = requests w1"
    and hp: "heap w' = heap w1 @ replicate (length cs) (heap w1 ! a)"
    using Cons.IH by blast
  have at: "heap w1 ! a = heap w ! a"
    using a by (simp add: w1 nth_append)
  have idx: "map (\<lambda>i. Inr (Some u, Some (length (heap w) + i))) [0..<length (ct # cs)]
      = (Inr (Some u, Some (length (heap w))) :: error + string option \<times> nat option)
        # map (\<lambda>i. Inr (Some u, Some (length (heap w1) + i))) [0..<length cs]"
    by (simp add: w1 upt_rec [of 0] map_Suc_upt [symmetric] del: upt_Suc)
  have run': "run_calls e (ct # cs) (h, w) =
      (map (\<lambda>i. Inr (Some u, Some (length (heap w) + i))) [0..<length (ct # cs)], h, w')"
    unfolding idx by (simp add: ct step run)
  from hp have "heap w' = heap w1 @ replicate (length cs) (heap w ! a)"
    by (simp only: at)
  then have hp': "heap w' = heap w @ replicate (length (ct # cs)) (heap w ! a)"
    by (simp add: w1 replicate_app_Cons_same)
  have req': "requests w' = requests w"
    by (simp only: req w1)
  show ?case
  proof (intro exI conjI)
    show "run_calls e (ct # cs) (h, w) =
      (map (\<lambda>i. Inr (Some u, Some (length (heap w) + i))) [0..<length (ct # cs)], h, w')"
      by (rule run')
    show "requests w' = requests w"
      by (rule req')
    show "heap w' = heap w @ replicate (length (ct # cs)) (heap w ! a)"
      by (rule hp')
  qed
qed


lemma copy_copy_keeps [simp]:
  "requests (snd (copy_copy r w)) = requests w"
  "unread (snd (copy_copy r w)) = unread w"
  by (simp_all add: copy_copy_def split: option.splits)

lemma fetch_url_requests:
  "requests (snd (snd (fetch_url e c args (h, w))))
     = requests w @ [(dxid h, args, with_timeout (kwargs c))]"
  by (simp add: fetch_url_def Let_def split: sum.splits option.splits)

text \<open>The expiry a call stores for a response; none when \<^verbatim>\<open>expires\<close> is needed and absent.\<close>

definition stored_expiry :: "call \<Rightarrow> response \<Rightarrow> real option" where
  "stored_expiry c resp =
     (if preauthenticated c
      then map_option (\<lambda>ms. real_of_int ms / 1000 - 60) (resp_expires resp)
      else Some 32503680000)"

lemma fetch_url_success:
  assumes "fetch_url e c args (h, w) = (None, h', w')"
  shows "\<exists>resp u hs x.
      database_download_file e (length (requests w)) (dxid h) args (with_timeout (kwargs c)) = Inr resp
    \<and> resp_url resp = Some u
    \<and> hs = (case resp_headers resp of None \<Rightarrow> [] | Some x \<Rightarrow> x)
    \<and> validate_headers hs = Inr hs
    \<and> stored_expiry c resp = Some x
    \<and> h' = h\<lparr>download_url := Some u, download_url_headers := Some (length (heap w)),
             download_url_expires := Some x\<rparr>
    \<and> w' = w\<lparr>requests := requests w @ [(dxid h, args, with_timeout (kwargs c))],
             heap := heap w @ [hs]\<rparr>"
proof (cases "database_download_file e (length (requests w)) (dxid h) args (with_timeout (kwargs c))")
  case (Inl err)
  with assms show ?thesis
    by (simp add: fetch_url_def Let_def)
next
  case (Inr resp)
  show ?thesis
  proof (cases "resp_url resp")
    case None
    with assms Inr show ?thesis
      by (simp add: fetch_url_def Let_def)
  next
    case (Some u)
    define hs where "hs = (case resp_headers resp of None \<Rightarrow> [] | Some x \<Rightarrow> x)"
    show ?thesis
    proof (cases "validate_headers hs")
      case (Inl err)
      with assms \<open>_ = Inr resp\<close> Some show ?thesis
        by (simp add: fetch_url_def Let_def hs_def)
    next
      case ok: (Inr checked)
      then have checked: "validate_headers hs = Inr hs"
        by (simp add: validate_headers_def split: option.splits)
      show ?thesis
      proof (cases "stored_expiry c resp")
        case None
        with assms \<open>_ = Inr resp\<close> Some ok show ?thesis
          by (simp add: fetch_url_def Let_def hs_def stored_expiry_def split: if_splits)
      next
        case x: (Some x)
        with assms \<open>_ = Inr resp\<close> Some ok have
          "h' = h\<lparr>download_url := Some u, download_url_headers := Some (length (heap w)),
             download_url_expires := Some x\<rparr>"
          "w' = w\<lparr>requests := requests w @ [(dxid h, args, with_timeout (kwargs c))],
             heap := heap w @ [hs]\<rparr>"
          by (auto simp add: fetch_url_def Let_def hs_def stored_expiry_def split: if_splits)
        with \<open>_ = Inr resp\<close> Some checked x hs_def show ?thesis
          by blast
      qed
    qed
  qed
qed

lemma get_download_url_requests:
  "requests (snd (snd (get_download_url e c t (h, w)))) =
     (if refresh_needed e h t = Inr True
      then requests w @ [(dxid h, build_args c (resolve_project e h (project c)), with_timeout (kwargs c))]
      else requests w)"
proof (cases "refresh_needed e h t")
  case (Inl err)
  then show ?thesis
    by (simp add: get_download_url_def Let_def)
next
  case (Inr need)
  show ?thesis
  proof (cases need)
    case False
    with Inr show ?thesis
      by (simp add: get_download_url_def Let_def case_prod_beta)
  next
    case True
    define args where "args = build_args c (resolve_project e h (project c))"
    define w0 where "w0 = dump_billed_project e (resolve_project e h (project c)) w"
    obtain err h1 w1 where f: "fetch_url e c args (h, w0) = (err, h1, w1)"
      by (cases "fetch_url e c args (h, w0)")
    from fetch_url_requests [of e c args h w0] f
    have "requests w1 = requests w @ [(dxid h, args, with_timeout (kwargs c))]"
      by (simp add: w0_def)
    with Inr True f show ?thesis
      by (cases err) (simp_all add: get_download_url_def Let_def args_def w0_def case_prod_beta)
  qed
qed

lemma get_download_url_miss:
  assumes "refresh_needed e h t = Inr True"
    and "get_download_url e c t (h, w) = (Inr r, h', w')"
  shows "\<exists>resp u x.
      database_download_file e (length (requests w)) (dxid h)
        (build_args c (resolve_project e h (project c))) (with_timeout (kwargs c)) = Inr resp
    \<and> resp_url resp = Some u
    \<and> stored_expiry c resp = Some x
    \<and> r = (Some u, Some (Suc (length (heap w))))
    \<and> cached h' w' u (length (heap w)) x
    \<and> heap w' ! Suc (length (heap w)) = heap w' ! length (heap w)
    \<and> length (heap w') = length (heap w) + 2"
proof -
  define args where "args = build_args c (resolve_project e h (project c))"
  define w0 where "w0 = dump_billed_project e (resolve_project e h (project c)) w"
  obtain err h1 w1 where f: "fetch_url e c args (h, w0) = (err, h1, w1)"
    by (cases "fetch_url e c args (h, w0)")
  from assms f have err: "err = None"
    by (cases err) (simp_all add: get_download_url_def Let_def args_def w0_def)
  from fetch_url_success [OF f [unfolded err]]
  obtain resp u hs x where
    resp: "database_download_file e (length (requests w0)) (dxid h) args (with_timeout (kwargs c)) = Inr resp"
    and u: "resp_url resp = Some u"
    and x: "stored_expiry c resp = Some x"
    and h1: "h1 = h\<lparr>download_url := Some u, download_url_headers := Some (length (heap w0)),
             download_url_expires := Some x\<rparr>"
    and w1: "w1 = w0\<lparr>requests := requests w0 @ [(dxid h, args, with_timeout (kwargs c))],
             heap := heap w0 @ [hs]\<rparr>"
    by blast
  from assms f err h1 w1 have r: "r = (Some u, Some (Suc (length (heap w))))"
    and h': "h' = h1" and w': "w' = w1\<lparr>heap := heap w1 @ [heap w1 ! length (heap w)]\<rparr>"
    by (simp_all add: get_download_url_def Let_def args_def w0_def copy_copy_def)
  have "cached h' w' u (length (heap w)) x"
    by (simp add: cached_def h' w' h1 w1 w0_def)
  moreover have "heap w' ! Suc (length (heap w)) = heap w' ! length (heap w)"
    by (simp add: w' w1 w0_def nth_append)
  moreover have "length (heap w') = length (heap w) + 2"
    by (simp add: w' w1 w0_def)
  ultimately show ?thesis
    using resp u x r by (simp add: args_def w0_def)
qed


text \<open>
  An invariant of the states the code reaches: the cached headers, when set, are a
  dictionary of the store. Construction establishes it; re-binding, every call of
  \<^verbatim>\<open>get_download_url\<close> and every run of calls keep it.
\<close>

definition headers_allocated :: "DXDatabase \<times> world \<Rightarrow> bool" where
  "headers_allocated s =
     (case download_url_headers (fst s) of None \<Rightarrow> True | Some a \<Rightarrow> a < length (heap (snd s)))"

lemma fetch_url_allocated:
  assumes "headers_allocated (h, w)"
  shows "headers_allocated (snd (fetch_url e c args (h, w)))"
  using assms
  by (auto simp: headers_allocated_def fetch_url_def Let_def
      split: sum.splits option.splits)

lemma get_download_url_allocated:
  assumes "headers_allocated s"
  shows "headers_allocated (snd (get_download_url e c t s))"
proof -
  obtain h w where s: "s = (h, w)"
    by (cases s)
  define w0 where "w0 = dump_billed_project e (resolve_project e h (project c)) w"
  from assms have a0: "headers_allocated (h, w0)"
    by (simp add: headers_allocated_def s w0_def split: option.splits)
  have copy: "headers_allocated (h', snd (copy_copy (download_url_headers h') w'))"
    if "headers_allocated (h', w')" for h' w'
    using that by (auto simp: headers_allocated_def copy_copy_def split: option.splits)
  show ?thesis
  proof (cases "refresh_needed e h t")
    case (Inl err)
    with a0 show ?thesis
      by (simp add: get_download_url_def s w0_def Let_def)
  next
    case (Inr need)
    define args where "args = build_args c (resolve_project e h (project c))"
    obtain err h1 w1 where f: "(if need then fetch_url e c args (h, w0) else (None, h, w0)) = (err, h1, w1)"
      by (metis prod_cases3)
    have a1: "headers_allocated (h1, w1)"
    proof (cases need)
      case True
      with f fetch_url_allocated [OF a0, of e c args]
      show ?thesis by simp
    next
      case False
      with f a0 show ?thesis by simp
    qed
    have "get_download_url e c t s =
        (case (if need then fetch_url e c args (h, w0) else (None, h, w0)) of
           (Some err, h1, w1) \<Rightarrow> (Inl err, h1, w1)
         | (None, h1, w1) \<Rightarrow>
             let (retval_headers, w2) = copy_copy (download_url_headers h1) w1
             in (Inr (download_url h1, retval_headers), h1, w2))"
      by (simp add: get_download_url_def s Inr Let_def args_def w0_def)
    then have g: "get_download_url e c t s =
        (case (err, h1, w1) of
           (Some err, h1, w1) \<Rightarrow> (Inl err, h1, w1)
         | (None, h1, w1) \<Rightarrow>
             let (retval_headers, w2) = copy_copy (download_url_headers h1) w1
             in (Inr (download_url h1, retval_headers), h1, w2))"
      by (simp only: f)
    show ?thesis
    proof (cases err)
      case None
      with copy [OF a1] show ?thesis
        by (simp add: g case_prod_beta)
    next
      case (Some x)
      with a1 show ?thesis
        by (simp add: g)
    qed
  qed
qed

lemma init_allocated:
  "DXDatabase_init e d p mode n x f = Inr h \<Longrightarrow> headers_allocated (h, w)"
  by (auto simp: DXDatabase_init_def headers_allocated_def split: sum.splits)

lemma set_ids_allocated:
  "headers_allocated (h, w) \<Longrightarrow> headers_allocated (set_ids e d p h, w)"
  by (simp add: headers_allocated_def set_ids_def split: option.splits)

lemma run_calls_allocated:
  "headers_allocated s \<Longrightarrow> headers_allocated (snd (run_calls e cs s))"
proof (induction cs arbitrary: s)
  case Nil
  then show ?case by simp
next
  case (Cons ct cs)
  obtain c t where ct: "ct = (c, t)"
    by (cases ct)
  from Cons.prems have "headers_allocated (snd (get_download_url e c t s))"
    by (rule get_download_url_allocated)
  then have "headers_allocated (snd (run_calls e cs (snd (get_download_url e c t s))))"
    by (rule Cons.IH)
  then show ?case
    by (simp add: ct case_prod_beta)
qed


lemmas ex_defs = ex_env_def ex_handler_def ex_world_def ex_call_def ex_response_def
lemmas call_defs = get_download_url_def refresh_needed_def fetch_url_def resolve_project_def
  build_args_def dump_billed_project_def with_timeout_def validate_headers_def
  isinstance_basestring_def copy_copy_def text_of_def FILE_REQUEST_TIMEOUT_def Let_def

lemma ex_first_call:
  "get_download_url ex_env (ex_call pre p) t (ex_handler, ex_world) =
    (Inr (Some ''https://dl.example/first'', Some 1),
     ex_handler\<lparr>download_url := Some ''https://dl.example/first'', download_url_headers := Some 0,
       download_url_expires := Some (if pre then 1700000030 else 32503680000)\<rparr>,
     ex_world\<lparr>heap := [[(PyStr ''Range'', PyStr ''bytes=0-'')], [(PyStr ''Range'', PyStr ''bytes=0-'')]],
       requests := [(Some ''database-A'', build_args (ex_call pre p) p, [(''timeout'', PyInt 60)])],
       files := (\<lambda>path. None)(''/tmp/billed'' \<mapsto>
         (case p of None \<Rightarrow> [] | Some q \<Rightarrow> if text_of q \<noteq> ''NO_PROJECT_HINT'' then text_of q else []))\<rparr>)"
  by (simp add: get_download_url_def refresh_needed_def fetch_url_def resolve_project_def
      dump_billed_project_def with_timeout_def validate_headers_def
      isinstance_basestring_def copy_copy_def text_of_def FILE_REQUEST_TIMEOUT_def Let_def ex_defs
      split: option.splits)

text \<open>
  Claim C2. With a URL in the cache whose expiry has not passed at the clock reading of the
  call (and headers in the cache, at an address of the store), \<^verbatim>\<open>get_download_url\<close> makes no
  request, leaves the handler as it is, and returns the cached URL with the address of a
  new dictionary that holds the cached headers. Changing the returned dictionary leaves the
  cached one as it was. That the cached address is one of the store is the invariant
  \<open>headers_allocated\<close>.
\<close>

theorem get_download_url_cached:
  assumes "download_url h = Some u" and "download_url_headers h = Some a"
    and "a < length (heap w)" and "download_url_expires h = Some x" and "t \<le> x"
  shows "\<exists>a' w'. get_download_url e c t (h, w) = (Inr (Some u, Some a'), h, w')
      \<and> requests w' = requests w
      \<and> \<not> a' < length (heap w)
      \<and> heap w' ! a' = heap w ! a
      \<and> heap w' ! a = heap w ! a
      \<and> (\<forall>k v. heap (dict_setitem a' k v w') ! a = heap w ! a)"
proof -
  define w' where
    "w' = (dump_billed_project e (resolve_project e h (project c)) w)\<lparr>heap := heap w @ [heap w ! a]\<rparr>"
  from assms have "cached h w u a x"
    by (simp add: cached_def)
  then have "get_download_url e c t (h, w) = (Inr (Some u, Some (length (heap w))), h, w')"
    unfolding w'_def using \<open>t \<le> x\<close> by (rule get_download_url_hit)
  moreover have "requests w' = requests w"
    by (simp add: w'_def)
  moreover have "heap w' ! length (heap w) = heap w ! a"
    by (simp add: w'_def)
  moreover from \<open>a < length (heap w)\<close> have "heap w' ! a = heap w ! a"
    by (simp add: w'_def nth_append)
  moreover from \<open>a < length (heap w)\<close>
  have "\<forall>k v. heap (dict_setitem (length (heap w)) k v w') ! a = heap w ! a"
    by (simp add: w'_def dict_setitem_def nth_append)
  ultimately show ?thesis
    by blast
qed

theorem get_download_url_cached_witness:
  "fst (get_download_url ex_env (ex_call True None) 1700000030 (ex_cached_handler, ex_cached_world))
     = Inr (Some ''https://dl.example/first'', Some 1)
   \<and> fst (snd (get_download_url ex_env (ex_call True None) 1700000030 (ex_cached_handler, ex_cached_world)))
     = ex_cached_handler
   \<and> requests (snd (snd (get_download_url ex_env (ex_call True None) 1700000030
        (ex_cached_handler, ex_cached_world)))) = []
   \<and> heap (dict_setitem 1 (PyStr ''Range'') (PyStr ''bytes=5-9'')
        (snd (snd (get_download_url ex_env (ex_call True None) 1700000030
          (ex_cached_handler, ex_cached_world)))))
     = [[(PyStr ''Range'', PyStr ''bytes=0-'')], [(PyStr ''Range'', PyStr ''bytes=5-9'')]]"
proof -
  have 1: "download_url ex_cached_handler = Some ''https://dl.example/first''"
    and 2: "download_url_headers ex_cached_handler = Some 0"
    and 3: "0 < length (heap ex_cached_world)"
    and 4: "download_url_expires ex_cached_handler = Some 1700000030"
    and 5: "(1700000030 :: real) \<le> 1700000030"
    by (simp_all add: ex_cached_handler_def ex_cached_world_def)
  from get_download_url_cached [OF 1 2 3 4 5, of ex_env "ex_call True None"]
  obtain a' w' where
    r: "get_download_url ex_env (ex_call True None) 1700000030 (ex_cached_handler, ex_cached_world)
        = (Inr (Some ''https://dl.example/first'', Some a'), ex_cached_handler, w')"
    and req: "requests w' = requests ex_cached_world"
    and fresh: "\<not> a' < length (heap ex_cached_world)"
    and copy: "heap w' ! a' = heap ex_cached_world ! 0"
    by blast
  have e: "get_download_url ex_env (ex_call True None) 1700000030 (ex_cached_handler, ex_cached_world)
      = (Inr (Some ''https://dl.example/first'', Some 1), ex_cached_handler,
         ex_cached_world\<lparr>files := (files ex_cached_world)(''/tmp/billed'' \<mapsto> []),
           heap := [[(PyStr ''Range'', PyStr ''bytes=0-'')], [(PyStr ''Range'', PyStr ''bytes=0-'')]]\<rparr>)"
    by (simp add: call_defs ex_defs ex_cached_handler_def ex_cached_world_def)
  from r e have "a' = 1"
    by simp
  with r e req show ?thesis
    by (simp add: dict_setitem_def ex_cached_world_def ex_world_def)
qed






text \<open>
  Claim C1, amended. Threads call \<^verbatim>\<open>get_download_url\<close> on a handler with no cached URL; they
  take the mutex in some order. If the call of the first returns, and the expiry it stores
  has not passed when each of the others reads the clock, then the transport is asked
  once, every call returns the same URL, and the headers the calls return are pairwise
  different dictionary objects, different from the cached one, with the cached items:
  changing one changes no other. As stated the claim fails: a credential the server gives
  less than 60 seconds to live is expired when it is stored, and every thread fetches anew.
\<close>

theorem single_fetch_while_valid:
  assumes "download_url h = None"
    and "get_download_url e c0 t0 (h, w) = (Inr (u0, a0), h1, w1)"
    and "download_url_expires h1 = Some x"
    and "\<forall>(c, t) \<in> set cs. t \<le> x"
  shows "\<exists>as ac w'. run_calls e ((c0, t0) # cs) (h, w) = (map (\<lambda>a. Inr (u0, Some a)) as, h1, w')
      \<and> length as = Suc (length cs)
      \<and> length (requests w') = Suc (length (requests w))
      \<and> download_url_headers h1 = Some ac
      \<and> distinct (ac # as)
      \<and> (\<forall>a \<in> set as. heap w' ! a = heap w' ! ac)
      \<and> (\<forall>a \<in> set as. \<forall>b \<in> set (ac # as). \<forall>k v.
            b \<noteq> a \<longrightarrow> heap (dict_setitem a k v w') ! b = heap w' ! b)"
proof -
  from assms(1) have need: "refresh_needed e h t0 = Inr True"
    by (simp add: refresh_needed_def)
  from get_download_url_miss [OF need assms(2)]
  obtain u x' where r: "(u0, a0) = (Some u, Some (Suc (length (heap w))))"
    and cached: "cached h1 w1 u (length (heap w)) x'"
    and same: "heap w1 ! Suc (length (heap w)) = heap w1 ! length (heap w)"
    and len1: "length (heap w1) = length (heap w) + 2"
    by blast
  from cached assms(3) have "x' = x"
    by (simp add: cached_def)
  with cached have cached: "cached h1 w1 u (length (heap w)) x"
    by simp
  from get_download_url_requests [of e c0 t0 h w] need assms(2)
  have req1: "length (requests w1) = Suc (length (requests w))"
    by simp
  from run_calls_hits [OF cached assms(4), of e]
  obtain w' where run: "run_calls e cs (h1, w1) =
      (map (\<lambda>i. Inr (Some u, Some (length (heap w1) + i))) [0..<length cs], h1, w')"
    and req: "requests w' = requests w1"
    and hp: "heap w' = heap w1 @ replicate (length cs) (heap w1 ! length (heap w))"
    by blast
  define ac where "ac = length (heap w)"
  define as where "as = Suc ac # map (\<lambda>i. ac + 2 + i) [0..<length cs]"
  have "map (\<lambda>i. Inr (Some u, Some (length (heap w1) + i))) [0..<length cs]
      = map (\<lambda>a. Inr (u0, Some a) :: error + string option \<times> nat option) (map (\<lambda>i. ac + 2 + i) [0..<length cs])"
    using r by (simp add: len1 ac_def)
  with run r assms(2) have 1: "run_calls e ((c0, t0) # cs) (h, w) = (map (\<lambda>a. Inr (u0, Some a)) as, h1, w')"
    by (simp add: as_def ac_def)
  have 2: "length as = Suc (length cs)"
    by (simp add: as_def)
  have 3: "length (requests w') = Suc (length (requests w))"
    by (simp add: req req1)
  from cached have 4: "download_url_headers h1 = Some ac"
    by (simp add: cached_def ac_def)
  have 5: "distinct (ac # as)"
    by (auto simp: as_def distinct_map inj_on_def)
  have at_ac: "heap w' ! ac = heap w1 ! ac"
    by (simp add: hp nth_append len1 ac_def)
  have 6: "\<forall>a \<in> set as. heap w' ! a = heap w' ! ac"
  proof
    fix a
    assume "a \<in> set as"
    then consider "a = Suc ac" | i where "i < length cs" "a = ac + 2 + i"
      by (auto simp: as_def)
    then show "heap w' ! a = heap w' ! ac"
    proof cases
      case 1
      then have "heap w' ! a = heap w1 ! Suc ac"
        by (simp add: hp nth_append len1 ac_def)
      with same at_ac show ?thesis
        by (simp add: ac_def)
    next
      case 2
      then have "heap w' ! a = heap w1 ! ac"
        by (simp add: hp nth_append len1 ac_def)
      with at_ac show ?thesis
        by simp
    qed
  qed
  have 7: "\<forall>a \<in> set as. \<forall>b \<in> set (ac # as). \<forall>k v.
            b \<noteq> a \<longrightarrow> heap (dict_setitem a k v w') ! b = heap w' ! b"
    by (simp add: dict_setitem_def)
  from 1 2 3 4 5 6 7 show ?thesis
    by blast
qed


theorem single_fetch_counterexample:
  "fst (run_calls ex_env [(ex_call True None, 1700000040), (ex_call True None, 1700000040)]
        (ex_handler, ex_world))
     = [Inr (Some ''https://dl.example/first'', Some 1), Inr (Some ''https://dl.example/later'', Some 3)]
   \<and> length (requests (snd (snd
        (run_calls ex_env [(ex_call True None, 1700000040), (ex_call True None, 1700000040)]
          (ex_handler, ex_world))))) = 2"
  by (simp add: ex_first_call)
    (simp add: call_defs ex_defs)


theorem single_fetch_while_valid_witness:
  "fst (run_calls ex_env
        [(ex_call True None, 1700000000), (ex_call False (Some (Str ''project-Q'')), 1700000030)]
        (ex_handler, ex_world))
     = [Inr (Some ''https://dl.example/first'', Some 1), Inr (Some ''https://dl.example/first'', Some 2)]
   \<and> length (requests (snd (snd (run_calls ex_env
        [(ex_call True None, 1700000000), (ex_call False (Some (Str ''project-Q'')), 1700000030)]
        (ex_handler, ex_world))))) = 1"
proof -
  define h1 where "h1 = ex_handler\<lparr>download_url := Some ''https://dl.example/first'',
       download_url_headers := Some 0, download_url_expires := Some (if True then 1700000030 else 32503680000)\<rparr>"
  have 1: "download_url ex_handler = None"
    by (simp add: ex_handler_def)
  note 2 = ex_first_call [of True None 1700000000, folded h1_def]
  have 3: "download_url_expires h1 = Some 1700000030"
    by (simp add: h1_def)
  have 4: "\<forall>(c, t) \<in> set [(ex_call False (Some (Str ''project-Q'')), 1700000030 :: real)]. t \<le> 1700000030"
    by simp
  from single_fetch_while_valid [OF 1 2 3 4]
  obtain as w' where run: "run_calls ex_env
        [(ex_call True None, 1700000000), (ex_call False (Some (Str ''project-Q'')), 1700000030)]
        (ex_handler, ex_world) = (map (\<lambda>a. Inr (Some ''https://dl.example/first'', Some a)) as, h1, w')"
    and req: "length (requests w') = Suc (length (requests ex_world))"
    by blast
  have "fst (run_calls ex_env
        [(ex_call True None, 1700000000), (ex_call False (Some (Str ''project-Q'')), 1700000030)]
        (ex_handler, ex_world))
     = [Inr (Some ''https://dl.example/first'', Some 1), Inr (Some ''https://dl.example/first'', Some 2)]"
    by (simp add: ex_first_call) (simp add: call_defs ex_defs)
  moreover from run req have "length (requests (snd (snd (run_calls ex_env
        [(ex_call True None, 1700000000), (ex_call False (Some (Str ''project-Q'')), 1700000030)]
        (ex_handler, ex_world))))) = 1"
    by (simp add: ex_world_def)
  ultimately show ?thesis
    by simp
qed



section \<open>Properties of the project hint and of re-binding\<close>

lemma no_hint_without_project:
  assumes "project c = None" and "\<not> DX_JOB_ID_in_environ e"
    and "case proj h of None \<Rightarrow> True | Some q \<Rightarrow> \<not> object_exists_in_project e (dxid h) q"
  shows "map_of (build_args c (resolve_project e h (project c))) ''projectContext'' = None"
  using assms
  by (simp add: build_args_def resolve_project_def split: option.splits)

lemma sentinel_object_dropped:
  assumes "project c = Some NO_PROJECT_HINT"
  shows "map_of (build_args c (resolve_project e h (project c))) ''projectContext'' = None"
  using assms
  by (simp add: build_args_def resolve_project_def split: option.splits)

text \<open>
  Claim C6. Without a project, outside a job and with a bound project that does not hold
  the object, no \<^verbatim>\<open>projectContext\<close> is sent (\<open>no_hint_without_project\<close>), and the sentinel
  object itself is dropped (\<open>sentinel_object_dropped\<close>). A hint that equals the sentinel
  without being that object is not dropped: \<^verbatim>\<open>is not\<close> compares identities. Here the project
  is another string spelling \<^verbatim>\<open>NO_PROJECT_HINT\<close>; the request carries it as
  \<^verbatim>\<open>projectContext\<close>, while the test hook, which compares with \<^verbatim>\<open>!=\<close>, writes no project.
\<close>

theorem equal_sentinel_is_sent:
  "requests (snd (snd (get_download_url ex_env (ex_call False (Some (Str ''NO_PROJECT_HINT'')))
       1700000000 (ex_handler, ex_world))))
     = [(Some ''database-A'',
         [(''preauthenticated'', PyBool False), (''projectContext'', PyStr ''NO_PROJECT_HINT'')],
         [(''timeout'', PyInt 60)])]
   \<and> files (snd (snd (get_download_url ex_env (ex_call False (Some (Str ''NO_PROJECT_HINT'')))
       1700000000 (ex_handler, ex_world)))) ''/tmp/billed'' = Some []"
  by (simp add: call_defs ex_defs)

lemma set_ids_keeps_cache:
  "download_url (set_ids e d p h) = download_url h
   \<and> download_url_headers (set_ids e d p h) = download_url_headers h
   \<and> download_url_expires (set_ids e d p h) = download_url_expires h
   \<and> read_buf (set_ids e d p h) = read_buf h"
  by (simp add: set_ids_def)

text \<open>
  Claim C9. \<^verbatim>\<open>set_ids\<close> leaves the read buffer and the cached triple as they are
  (\<open>set_ids_keeps_cache\<close>). Here a handler that holds a credential for one object is bound
  to another: the next \<^verbatim>\<open>get_download_url\<close> makes no request and returns the URL of the
  first object.
\<close>

theorem set_ids_stale_credential:
  "dxid (set_ids ex_env (Some ''database-B'') None ex_cached_handler) = Some ''database-B''
   \<and> fst (get_download_url ex_env (ex_call True None) 1700000000
        (set_ids ex_env (Some ''database-B'') None ex_cached_handler, ex_cached_world))
     = Inr (Some ''https://dl.example/first'', Some 1)
   \<and> requests (snd (snd (get_download_url ex_env (ex_call True None) 1700000000
        (set_ids ex_env (Some ''database-B'') None ex_cached_handler, ex_cached_world)))) = []"
  by (simp add: call_defs ex_defs ex_cached_handler_def ex_cached_world_def set_ids_def
      DXDataObject_set_ids_def)

section \<open>Properties of line iteration\<close>

lemma iter_whole:
  assumes "length s \<le> read_bufsize h" and "USING_PYTHON2 e \<or> \<not> binary_mode h"
  shows "fst (DXDatabase_iter e h (w\<lparr>unread := s\<rparr>))
    = fst (finish_lines w (iter_loop (USING_PYTHON2 e) (read_bufsize h) s []))"
  using assms
  by (auto simp: DXDatabase_iter_def read_def finish_lines_def split: sum.splits)

text \<open>
  Claim C4, amended. When the first \<^verbatim>\<open>read\<close> returns the whole object (the read buffer size
  is at least its length), and the handler is in text mode or runs under Python 2, the
  lines of \<^verbatim>\<open>a\nb\nc\<close> are \<^verbatim>\<open>a\<close>, \<^verbatim>\<open>b\<close>, \<^verbatim>\<open>c\<close> and those of \<^verbatim>\<open>a\nb\n\<close> are \<^verbatim>\<open>a\<close>, \<^verbatim>\<open>b\<close>.
  Under Python 3 a handler in binary mode fails with \<^verbatim>\<open>DXFileError\<close> (the spec's
  \<open>InvalidModeError\<close>). As stated the claim fails: under Python 2 the binary flag is not
  looked at, and with a smaller buffer a line feed that ends a chunk is lost.
\<close>

theorem line_iteration:
  "((USING_PYTHON2 e \<or> \<not> binary_mode h) \<and> 5 \<le> read_bufsize h \<longrightarrow>
      fst (DXDatabase_iter e h (w\<lparr>unread := ''a\<newline>b\<newline>c''\<rparr>)) = Inr [''a'', ''b'', ''c''])
   \<and> ((USING_PYTHON2 e \<or> \<not> binary_mode h) \<and> 4 \<le> read_bufsize h \<longrightarrow>
      fst (DXDatabase_iter e h (w\<lparr>unread := ''a\<newline>b\<newline>''\<rparr>)) = Inr [''a'', ''b''])
   \<and> (\<not> USING_PYTHON2 e \<and> binary_mode h \<longrightarrow> fst (DXDatabase_iter e h w) = Inl DXFileError)"
proof (intro conjI impI)
  assume a: "(USING_PYTHON2 e \<or> \<not> binary_mode h) \<and> 5 \<le> read_bufsize h"
  have "iter_loop py2 n ''a\<newline>b\<newline>c'' [] = Inr ([''a'', ''b''], ''c'', [])" for py2 n
    by (simp add: iter_loop.simps splitlines_def linebreak_def)
  with a show "fst (DXDatabase_iter e h (w\<lparr>unread := ''a\<newline>b\<newline>c''\<rparr>)) = Inr [''a'', ''b'', ''c'']"
    by (simp add: iter_whole finish_lines_def)
next
  assume a: "(USING_PYTHON2 e \<or> \<not> binary_mode h) \<and> 4 \<le> read_bufsize h"
  have "iter_loop py2 n ''a\<newline>b\<newline>'' [] = Inr ([''a''], ''b'', [])" for py2 n
    by (simp add: iter_loop.simps splitlines_def linebreak_def)
  with a show "fst (DXDatabase_iter e h (w\<lparr>unread := ''a\<newline>b\<newline>''\<rparr>)) = Inr [''a'', ''b'']"
    by (simp add: iter_whole finish_lines_def)
next
  assume "\<not> USING_PYTHON2 e \<and> binary_mode h"
  then show "fst (DXDatabase_iter e h w) = Inl DXFileError"
    by (simp add: DXDatabase_iter_def read_def)
qed

theorem line_iteration_counterexample:
  "fst (DXDatabase_iter (ex_env\<lparr>USING_PYTHON2 := True\<rparr>) (ex_handler\<lparr>binary_mode := True\<rparr>)
        (ex_world\<lparr>unread := ''a\<newline>b\<newline>c''\<rparr>)) = Inr [''a'', ''b'', ''c'']
   \<and> fst (DXDatabase_iter ex_env (ex_handler\<lparr>read_bufsize := 2\<rparr>)
        (ex_world\<lparr>unread := ''a\<newline>b\<newline>c''\<rparr>)) = Inr [''abc'']
   \<and> fst (DXDatabase_iter ex_env (ex_handler\<lparr>read_bufsize := 2\<rparr>)
        (ex_world\<lparr>unread := ''a\<newline>b\<newline>''\<rparr>)) = Inr [''ab'']"
  by (simp add: DXDatabase_iter_def read_def finish_lines_def iter_loop.simps splitlines_def
      linebreak_def ex_defs)

theorem line_iteration_witness:
  "fst (DXDatabase_iter ex_env ex_handler (ex_world\<lparr>unread := ''a\<newline>b\<newline>c''\<rparr>)) = Inr [''a'', ''b'', ''c'']
   \<and> fst (DXDatabase_iter ex_env ex_handler (ex_world\<lparr>unread := ''a\<newline>b\<newline>''\<rparr>)) = Inr [''a'', ''b'']
   \<and> fst (DXDatabase_iter ex_env (ex_handler\<lparr>binary_mode := True\<rparr>) ex_world) = Inl DXFileError"
  using line_iteration [of ex_env ex_handler ex_world]
    line_iteration [of ex_env "ex_handler\<lparr>binary_mode := True\<rparr>" ex_world]
  by (simp add: ex_defs)


section \<open>Properties of the size formatter\<close>

lemma bitlen_upper: "n < 2 ^ bitlen n"
proof (induction n rule: bitlen.induct)
  case (1 n)
  show ?case
  proof (cases "n = 0")
    case True
    then show ?thesis by (simp add: bitlen.simps)
  next
    case False
    with 1 have "n div 2 < 2 ^ bitlen (n div 2)"
      by simp
    then have "n < 2 * 2 ^ bitlen (n div 2)"
      by linarith
    with False show ?thesis
      by (simp add: bitlen.simps [of n])
  qed
qed

lemma bitlen_lower: "0 < n \<Longrightarrow> 2 ^ (bitlen n - 1) \<le> n"
proof (induction n rule: bitlen.induct)
  case (1 n)
  then have n: "n \<noteq> 0" by simp
  then have b: "bitlen n = Suc (bitlen (n div 2))"
    by (simp add: bitlen.simps [of n])
  show ?case
  proof (cases "n div 2 = 0")
    case True
    then show ?thesis
      using n by (simp add: b bitlen.simps [of 0])
  next
    case False
    with 1 n have ih: "2 ^ (bitlen (n div 2) - 1) \<le> n div 2"
      by simp
    from False have "bitlen (n div 2) = Suc (bitlen (n div 2) - 1)"
      by (simp add: bitlen.simps [of "n div 2"])
    then have "(2::nat) ^ bitlen (n div 2) = 2 * 2 ^ (bitlen (n div 2) - 1)"
      by (metis power_Suc)
    with ih have "(2::nat) ^ bitlen (n div 2) \<le> 2 * (n div 2)"
      by simp
    also have "\<dots> \<le> n"
      by simp
    finally show ?thesis
      by (simp add: b)
  qed
qed

lemma round_half_even_bounds:
  "num div den \<le> round_half_even num den" "round_half_even num den \<le> num div den + 1"
  by (simp_all add: round_half_even_def Let_def)

lemma round_half_even_one [simp]: "round_half_even n (Suc 0) = n"
  by (simp add: round_half_even_def)

lemma bitlen_le:
  assumes "n < 2 ^ m"
  shows "bitlen n \<le> m"
proof (cases "n = 0")
  case True
  then show ?thesis by (simp add: bitlen.simps)
next
  case False
  then have "0 < n"
    by simp
  then have "(2::nat) ^ (bitlen n - 1) \<le> n"
    by (rule bitlen_lower)
  from this assms have "(2::nat) ^ (bitlen n - 1) < 2 ^ m"
    by (rule le_less_trans)
  then have "bitlen n - 1 < m"
    by simp
  then show ?thesis
    by simp
qed

lemma nearest_exact:
  assumes "n < 2 ^ p"
  shows "nearest p n = n"
proof -
  from assms have "bitlen n - p = 0"
    by (simp add: bitlen_le)
  then show ?thesis
    by (simp add: nearest_def)
qed

lemma nearest_le_pow:
  assumes "0 < p"
  shows "nearest p n \<le> 2 ^ max p (bitlen n)"
proof (cases "bitlen n \<le> p")
  case True
  then have "nearest p n = n"
    by (simp add: nearest_def)
  also have "n < 2 ^ bitlen n"
    by (rule bitlen_upper)
  also from True have "(2::nat) ^ bitlen n \<le> 2 ^ max p (bitlen n)"
    by (intro power_increasing) simp_all
  finally show ?thesis
    by simp
next
  case False
  define k where "k = bitlen n - p"
  from False have L: "bitlen n = p + k"
    by (simp add: k_def)
  have "n < 2 ^ p * 2 ^ k"
    using bitlen_upper [of n] by (simp add: L power_add)
  then have "n div 2 ^ k < 2 ^ p"
    by (simp add: less_mult_imp_div_less)
  then have "round_half_even n (2 ^ k) \<le> 2 ^ p"
    using round_half_even_bounds(2) [of n "2 ^ k"] by simp
  then have "round_half_even n (2 ^ k) * 2 ^ k \<le> 2 ^ p * 2 ^ k"
    by (rule mult_le_mono1)
  with False show ?thesis
    by (simp add: nearest_def k_def [symmetric] L power_add max_def)
qed

lemma nearest_finite:
  assumes "0 < p" and "p < E" and "n + 2 ^ (E - p - 1) < 2 ^ E"
  shows "nearest p n < 2 ^ E"
proof -
  from assms(3) have nE: "n < 2 ^ E"
    by simp
  then have LE: "bitlen n \<le> E"
    by (rule bitlen_le)
  show ?thesis
  proof (cases "bitlen n < E")
    case True
    with assms have "max p (bitlen n) < E"
      by simp
    then have "(2::nat) ^ max p (bitlen n) < 2 ^ E"
      by (intro power_strict_increasing) simp_all
    with nearest_le_pow [OF assms(1), of n] show ?thesis
      by (rule le_less_trans)
  next
    case False
    with LE have L: "bitlen n = E"
      by simp
    define k where "k = E - p - 1"
    from assms(2) have Ep: "E - p = Suc k"
      by (simp add: k_def)
    define d :: nat where "d = 2 ^ k"
    have dpos: "0 < d"
      by (simp add: d_def)
    have den: "(2::nat) ^ (E - p) = 2 * d"
      by (simp add: Ep d_def)
    from assms(2) have "E = p + (E - p)"
      by simp
    then have "(2::nat) ^ E = 2 ^ p * 2 ^ (E - p)"
      by (metis power_add)
    then have E: "(2::nat) ^ E = 2 ^ p * (2 * d)"
      by (simp only: den)
    define q where "q = n div (2 * d)"
    define r where "r = n mod (2 * d)"
    have n: "n = q * (2 * d) + r"
      unfolding q_def r_def by (rule div_mult_mod_eq [symmetric])
    from assms(3) have lt: "q * (2 * d) + r + d < 2 ^ p * (2 * d)"
      by (simp only: n [symmetric] E [symmetric] k_def [symmetric] d_def [symmetric])
    have "q < 2 ^ p"
    proof (rule ccontr)
      assume "\<not> q < 2 ^ p"
      then have "2 ^ p * (2 * d) \<le> q * (2 * d)"
        by (intro mult_le_mono1) simp
      with lt show False
        by simp
    qed
    have "round_half_even n (2 * d) < 2 ^ p"
    proof (cases "Suc q = 2 ^ p")
      case True
      with lt have "q * (2 * d) + r + d < Suc q * (2 * d)"
        by simp
      then have "r < d"
        by simp
      then have "round_half_even n (2 * d) = q"
        by (simp add: round_half_even_def q_def r_def Let_def)
      with \<open>q < 2 ^ p\<close> show ?thesis
        by simp
    next
      case False
      with \<open>q < 2 ^ p\<close> have "q + 1 < 2 ^ p"
        by simp
      with round_half_even_bounds(2) [of n "2 * d"] show ?thesis
        by (simp add: q_def)
    qed
    then have "round_half_even n (2 * d) * (2 * d) < 2 ^ p * (2 * d)"
      using dpos by simp
    then show ?thesis
      by (simp only: nearest_def L den E)
  qed
qed

lemma nearest_overflow:
  assumes "0 < p" and "p < E" and "2 ^ E \<le> n + 2 ^ (E - p - 1)"
  shows "2 ^ E \<le> nearest p n"
proof (cases "2 ^ E \<le> n")
  case True
  have "n < 2 ^ bitlen n"
    by (rule bitlen_upper)
  with True have "(2::nat) ^ E < 2 ^ bitlen n"
    by (rule le_less_trans)
  then have EL: "E < bitlen n"
    by simp
  define k where "k = bitlen n - p"
  from EL assms have L: "bitlen n = p + k"
    by (simp add: k_def)
  have "n div 2 ^ k * 2 ^ k \<le> nearest p n"
    unfolding nearest_def k_def [symmetric]
    by (intro mult_le_mono1 round_half_even_bounds)
  moreover have "k \<le> E \<or> E < k"
    by linarith
  then have "2 ^ E \<le> n div 2 ^ k * 2 ^ k"
  proof
    assume "k \<le> E"
    then have "(2::nat) ^ E = 2 ^ (E - k) * 2 ^ k"
      by (simp add: power_add [symmetric])
    moreover have "2 ^ (E - k) \<le> n div 2 ^ k"
    proof -
      from True have "2 ^ E div 2 ^ k \<le> n div 2 ^ k"
        by (rule div_le_mono)
      moreover from \<open>k \<le> E\<close> have "(2::nat) ^ E div 2 ^ k = 2 ^ (E - k)"
        by (simp add: power_diff)
      ultimately show ?thesis
        by simp
    qed
    ultimately show ?thesis
      by simp
  next
    assume "E < k"
    have "0 < (2::nat) ^ E"
      by simp
    from this True have "0 < n"
      by (rule less_le_trans)
    then have "(2::nat) ^ (bitlen n - 1) \<le> n"
      by (rule bitlen_lower)
    moreover from assms L have "bitlen n - 1 = (p - 1) + k"
      by simp
    ultimately have "(2::nat) ^ (p - 1) * 2 ^ k \<le> n"
      by (simp add: power_add)
    then have "2 ^ (p - 1) * 2 ^ k div 2 ^ k \<le> n div 2 ^ k"
      by (rule div_le_mono)
    then have "(2::nat) ^ (p - 1) \<le> n div 2 ^ k"
      by simp
    moreover have "(1::nat) \<le> 2 ^ (p - 1)"
      by simp
    ultimately have "(1::nat) \<le> n div 2 ^ k"
      by (rule le_trans [rotated])
    then have "1 * (2::nat) ^ k \<le> n div 2 ^ k * 2 ^ k"
      by (rule mult_le_mono1)
    then have "(2::nat) ^ k \<le> n div 2 ^ k * 2 ^ k"
      by simp
    moreover from \<open>E < k\<close> have "(2::nat) ^ E \<le> 2 ^ k"
      by (intro power_increasing) simp_all
    ultimately show ?thesis
      by (rule le_trans [rotated])
  qed
  ultimately show ?thesis
    by (rule le_trans [rotated])
next
  case False
  then have nE: "n < 2 ^ E"
    by simp
  then have LE: "bitlen n \<le> E"
    by (rule bitlen_le)
  define k where "k = E - p - 1"
  from assms(2) have Ep: "E - p = Suc k"
    by (simp add: k_def)
  define d :: nat where "d = 2 ^ k"
  have dpos: "0 < d"
    by (simp add: d_def)
  have den: "(2::nat) ^ (E - p) = 2 * d"
    by (simp add: Ep d_def)
  from assms(2) have "E = p + (E - p)"
    by simp
  then have "(2::nat) ^ E = 2 ^ p * 2 ^ (E - p)"
    by (metis power_add)
  then have E: "(2::nat) ^ E = 2 ^ p * (2 * d)"
    by (simp only: den)
  from assms(2) have "E - 1 = (p - 1) + (E - p)" using assms(1)
    by simp
  then have "(2::nat) ^ (E - 1) = 2 ^ (p - 1) * 2 ^ (E - p)"
    by (metis power_add)
  from assms(3) have ge: "2 ^ p * (2 * d) \<le> n + d"
    by (simp only: E [symmetric] k_def [symmetric] d_def [symmetric])
  have "2 ^ (E - 1) \<le> n"
  proof -
    from assms(1) have "(2::nat) ^ p = 2 * 2 ^ (p - 1)"
      by (cases p) simp_all
    then have "2 ^ p * (2 * d) = 2 * (2 ^ (p - 1) * (2 * d))"
      by simp
    moreover have "d \<le> 2 ^ (p - 1) * (2 * d)"
      by simp
    ultimately have "2 ^ (p - 1) * (2 * d) \<le> n"
      using ge by linarith
    with \<open>(2::nat) ^ (E - 1) = 2 ^ (p - 1) * 2 ^ (E - p)\<close> den show ?thesis
      by simp
  qed
  have "E \<le> bitlen n"
  proof (rule ccontr)
    assume "\<not> E \<le> bitlen n"
    then have "bitlen n \<le> E - 1"
      by simp
    then have "(2::nat) ^ bitlen n \<le> 2 ^ (E - 1)"
      by (intro power_increasing) simp_all
    with bitlen_upper [of n] \<open>2 ^ (E - 1) \<le> n\<close> show False
      by simp
  qed
  with LE have L: "bitlen n = E"
    by simp
  define q where "q = n div (2 * d)"
  define r where "r = n mod (2 * d)"
  have n: "n = q * (2 * d) + r"
    unfolding q_def r_def by (rule div_mult_mod_eq [symmetric])
  have rlt: "r < 2 * d"
    using dpos by (simp add: r_def)
  from nE have "q * (2 * d) + r < 2 ^ p * (2 * d)"
    by (simp only: n [symmetric] E)
  have qlt: "q < 2 ^ p"
  proof (rule ccontr)
    assume "\<not> q < 2 ^ p"
    then have "2 ^ p * (2 * d) \<le> q * (2 * d)"
      by (intro mult_le_mono1) simp
    with \<open>q * (2 * d) + r < 2 ^ p * (2 * d)\<close> show False
      by simp
  qed
  have qeq: "Suc q = 2 ^ p"
  proof (rule ccontr)
    assume "Suc q \<noteq> 2 ^ p"
    with qlt have "Suc (Suc q) \<le> 2 ^ p"
      by simp
    then have "Suc (Suc q) * (2 * d) \<le> 2 ^ p * (2 * d)"
      by (rule mult_le_mono1)
    with ge n rlt show False
      by simp
  qed
  from ge have "Suc q * (2 * d) \<le> q * (2 * d) + r + d"
    by (simp only: qeq n [symmetric])
  then have "d \<le> r"
    by simp
  from assms(1) have "even ((2::nat) ^ p)"
    by simp
  then have "even (Suc q)"
    by (simp only: qeq)
  then have "odd q"
    by simp
  with \<open>d \<le> r\<close> have "round_half_even n (2 * d) = q + 1"
    by (auto simp: round_half_even_def q_def r_def Let_def)
  then have "round_half_even n (2 * d) * (2 * d) = 2 ^ p * (2 * d)"
    using qeq by simp
  then show ?thesis
    by (simp only: nearest_def L den E)
qed


lemma int_to_double_exact:
  assumes "0 \<le> b" and "b < 2 ^ 53"
  shows "int_to_double b = Inr (nat b)"
proof -
  from assms have "nat b < 2 ^ 53"
    by (simp add: nat_less_iff)
  then have n: "nearest 53 (nat b) = nat b"
    by (rule nearest_exact)
  have "(2::nat) ^ 53 \<le> 2 ^ 1024"
    by (intro power_increasing) simp_all
  with \<open>nat b < 2 ^ 53\<close> have "\<not> 2 ^ 1024 \<le> nat b"
    by linarith
  then show ?thesis
    by (simp only: int_to_double_def n Let_def if_False)
qed

lemma int_to_double_overflow:
  assumes "0 \<le> b"
  shows "int_to_double b =
    (if 2 ^ 1024 \<le> b + 2 ^ 970 then Inl OverflowError else Inr (nearest 53 (nat b)))"
proof -
  have e: "(1024::nat) - 53 - 1 = 970"
    by simp
  have c: "(2 ^ 1024 \<le> b + 2 ^ 970) = (2 ^ 1024 \<le> nat b + 2 ^ 970)"
    using assms by (simp add: le_nat_iff nat_add_distrib nat_power_eq)
  show ?thesis
  proof (cases "(2::nat) ^ 1024 \<le> nat b + 2 ^ 970")
    case True
    then have "(2::nat) ^ 1024 \<le> nat b + 2 ^ (1024 - 53 - 1)"
      by (simp only: e)
    then have "2 ^ 1024 \<le> nearest 53 (nat b)"
      by (intro nearest_overflow) simp_all
    with True show ?thesis
      by (simp only: int_to_double_def Let_def c if_True)
  next
    case False
    then have "nat b + 2 ^ (1024 - 53 - 1) < (2::nat) ^ 1024"
      by (simp only: e not_le)
    then have "nearest 53 (nat b) < 2 ^ 1024"
      by (intro nearest_finite) simp_all
    then have "\<not> 2 ^ 1024 \<le> nearest 53 (nat b)"
      by (simp only: not_le)
    with False show ?thesis
      by (simp only: int_to_double_def Let_def c if_False)
  qed
qed


text \<open>A decimal digit, and a string of digits, a point and two digits.\<close>

definition is_digit :: "char \<Rightarrow> bool" where
  "is_digit c = (c \<in> set ''0123456789'')"

definition two_decimals :: "string \<Rightarrow> bool" where
  "two_decimals s =
     (case rev s of
        b # a # dot # ip \<Rightarrow>
          is_digit b \<and> is_digit a \<and> dot = CHR ''.'' \<and> ip \<noteq> [] \<and> list_all is_digit ip
      | _ \<Rightarrow> False)"

lemma is_digit_digit_char: "d < 10 \<Longrightarrow> is_digit (digit_char d)"
  unfolding is_digit_def digit_char_def by (rule nth_mem) simp

lemma show_nat_digits: "show_nat n \<noteq> [] \<and> list_all is_digit (show_nat n)"
proof (induction n rule: show_nat.induct)
  case (1 n)
  show ?case
  proof (cases "n < 10")
    case True
    then show ?thesis
      by (simp add: show_nat.simps [of n] is_digit_digit_char)
  next
    case False
    with 1 have "list_all is_digit (show_nat (n div 10))"
      by simp
    moreover have "is_digit (digit_char (n mod 10))"
      by (rule is_digit_digit_char) simp
    ultimately show ?thesis
      using False by (simp add: show_nat.simps [of n])
  qed
qed

lemma format_2f_two_decimals: "two_decimals (format_2f v u)"
proof -
  define h where "h = round_half_even (100 * v) u"
  have "is_digit (digit_char (h div 10 mod 10))" "is_digit (digit_char (h mod 10))"
    by (rule is_digit_digit_char, simp)+
  moreover have "rev (show_nat (h div 100)) \<noteq> []" "list_all is_digit (rev (show_nat (h div 100)))"
    using show_nat_digits [of "h div 100"] by simp_all
  ultimately show ?thesis
    by (simp add: two_decimals_def format_2f_def h_def [symmetric] Let_def)
qed

lemma float_quotient_2f_finite:
  assumes "0 \<le> n" and "n + 2 ^ 970 < 2 ^ 1024"
  shows "float_quotient_2f n u suffix = Inr (PyStr (format_2f (nearest 53 (nat n)) u @ suffix))"
proof -
  from assms(2) have "\<not> 2 ^ 1024 \<le> n + 2 ^ 970"
    by (simp only: not_le)
  with int_to_double_overflow [OF assms(1)] have "int_to_double n = Inr (nearest 53 (nat n))"
    by (simp only: if_False)
  then show ?thesis
    by (simp add: float_quotient_2f_def)
qed

lemma units: "int KB = 1024" "int MB = 1024 ^ 2" "int GB = 1024 ^ 3" "int TB = 1024 ^ 4"
  by (simp_all add: KB_def MB_def GB_def TB_def)

text \<open>
  Claim C8, amended. For every byte count \<open>n\<close> from 0 up to, and not including,
  2^1024 - 2^970, \<^verbatim>\<open>_readable_part_size\<close> returns a string: below 1024 the integer with
  \<^verbatim>\<open>byte\<close> for 1 and \<^verbatim>\<open>bytes\<close> otherwise; from 1024^i up to 1024^(i+1), and from 1024^4 on
  for TiB, the magnitude in that unit with two decimal places. The magnitude is that of
  the double nearest to \<open>n\<close>, which is \<open>n\<close> itself below 2^53. As stated the claim fails:
  from 2^1024 - 2^970 on, the conversion to a float raises \<^verbatim>\<open>OverflowError\<close>.
\<close>

theorem readable_part_size_units:
  assumes "0 \<le> n" and "n + 2 ^ 970 < 2 ^ 1024"
  shows "(n < 1024 \<longrightarrow>
        readable_part_size n = Inr (PyStr (show_nat (nat n) @ (if n = 1 then '' byte'' else '' bytes''))))
    \<and> (1024 \<le> n \<and> n < 1024 ^ 2 \<longrightarrow>
        readable_part_size n = Inr (PyStr (format_2f (nearest 53 (nat n)) 1024 @ '' KiB'')))
    \<and> (1024 ^ 2 \<le> n \<and> n < 1024 ^ 3 \<longrightarrow>
        readable_part_size n = Inr (PyStr (format_2f (nearest 53 (nat n)) (1024 ^ 2) @ '' MiB'')))
    \<and> (1024 ^ 3 \<le> n \<and> n < 1024 ^ 4 \<longrightarrow>
        readable_part_size n = Inr (PyStr (format_2f (nearest 53 (nat n)) (1024 ^ 3) @ '' GiB'')))
    \<and> (1024 ^ 4 \<le> n \<longrightarrow>
        readable_part_size n = Inr (PyStr (format_2f (nearest 53 (nat n)) (1024 ^ 4) @ '' TiB'')))
    \<and> (n < 2 ^ 53 \<longrightarrow> nearest 53 (nat n) = nat n)
    \<and> list_all is_digit (show_nat (nat n))
    \<and> (\<forall>u. two_decimals (format_2f (nearest 53 (nat n)) u))"
proof -
  note q = float_quotient_2f_finite [OF assms]
  have u: "KB = 1024" "MB = 1024 ^ 2" "GB = 1024 ^ 3" "TB = 1024 ^ 4"
    by (simp_all add: KB_def MB_def GB_def TB_def)
  have 1: "n < 1024 \<longrightarrow>
        readable_part_size n = Inr (PyStr (show_nat (nat n) @ (if n = 1 then '' byte'' else '' bytes'')))"
    using assms(1) by (simp add: readable_part_size_def units show_int_def)
  have 2: "1024 \<le> n \<and> n < 1024 ^ 2 \<longrightarrow>
        readable_part_size n = Inr (PyStr (format_2f (nearest 53 (nat n)) 1024 @ '' KiB''))"
    by (simp add: readable_part_size_def units q) (simp add: u)
  have 3: "1024 ^ 2 \<le> n \<and> n < 1024 ^ 3 \<longrightarrow>
        readable_part_size n = Inr (PyStr (format_2f (nearest 53 (nat n)) (1024 ^ 2) @ '' MiB''))"
    by (simp add: readable_part_size_def units q) (simp add: u)
  have 4: "1024 ^ 3 \<le> n \<and> n < 1024 ^ 4 \<longrightarrow>
        readable_part_size n = Inr (PyStr (format_2f (nearest 53 (nat n)) (1024 ^ 3) @ '' GiB''))"
    by (simp add: readable_part_size_def units q) (simp add: u)
  have 5: "1024 ^ 4 \<le> n \<longrightarrow>
        readable_part_size n = Inr (PyStr (format_2f (nearest 53 (nat n)) (1024 ^ 4) @ '' TiB''))"
    by (simp add: readable_part_size_def units q) (simp add: u)
  have 6: "n < 2 ^ 53 \<longrightarrow> nearest 53 (nat n) = nat n"
    using assms(1) by (auto intro!: nearest_exact simp: nat_less_iff)
  have 7: "list_all is_digit (show_nat (nat n))"
    using show_nat_digits [of "nat n"] by simp
  have 8: "\<forall>u. two_decimals (format_2f (nearest 53 (nat n)) u)"
    by (simp add: format_2f_two_decimals)
  from 1 2 3 4 5 6 7 8 show ?thesis
    by (intro conjI)
qed


theorem readable_part_size_counterexample:
  "readable_part_size (2 ^ 1024) = Inl OverflowError"
proof -
  have "int_to_double (2 ^ 1024) = Inl OverflowError"
    using int_to_double_overflow [of "2 ^ 1024"] by simp
  then show ?thesis
    by (simp add: readable_part_size_def units float_quotient_2f_def)
qed

theorem readable_part_size_units_witness:
  "readable_part_size 1 = Inr (PyStr ''1 byte'')
   \<and> readable_part_size 0 = Inr (PyStr ''0 bytes'')
   \<and> readable_part_size 1023 = Inr (PyStr ''1023 bytes'')
   \<and> readable_part_size 1024 = Inr (PyStr ''1.00 KiB'')
   \<and> readable_part_size 1536 = Inr (PyStr ''1.50 KiB'')
   \<and> readable_part_size 1048576 = Inr (PyStr ''1.00 MiB'')
   \<and> readable_part_size 1073741824 = Inr (PyStr ''1.00 GiB'')
   \<and> readable_part_size 1099511627776 = Inr (PyStr ''1.00 TiB'')"
proof -
  have b: "(k::int) < 2 ^ 53 \<Longrightarrow> k + 2 ^ 970 < 2 ^ 1024" for k
  proof -
    assume "k < 2 ^ 53"
    moreover have "(2::int) ^ 53 \<le> 2 ^ 970"
      by (intro power_increasing) simp_all
    moreover have "(2::int) ^ 970 + 2 ^ 970 \<le> 2 ^ 1024"
    proof -
      have "(2::int) ^ 970 + 2 ^ 970 = 2 ^ 971"
        by simp
      moreover have "(2::int) ^ 971 \<le> 2 ^ 1024"
        by (intro power_increasing) simp_all
      ultimately show ?thesis
        by simp
    qed
    ultimately show ?thesis
      by linarith
  qed
  have e: "format_2f 1024 1024 = ''1.00''" "format_2f 1536 1024 = ''1.50''"
    "format_2f 1048576 (1024 ^ 2) = ''1.00''" "format_2f 1073741824 (1024 ^ 3) = ''1.00''"
    "format_2f 1099511627776 (1024 ^ 4) = ''1.00''"
    by (simp_all add: format_2f_def round_half_even_def Let_def show_nat.simps digit_char_def)
  have s: "show_nat 0 = ''0''" "show_nat 1 = ''1''" "show_nat 1023 = ''1023''"
    by (simp_all add: show_nat.simps digit_char_def)
  from readable_part_size_units [of 1] b [of 1] s
  have 1: "readable_part_size 1 = Inr (PyStr ''1 byte'')"
    by simp
  from readable_part_size_units [of 0] b [of 0] s
  have 2: "readable_part_size 0 = Inr (PyStr ''0 bytes'')"
    by simp
  from readable_part_size_units [of 1023] b [of 1023] s
  have 3: "readable_part_size 1023 = Inr (PyStr ''1023 bytes'')"
    by simp
  from readable_part_size_units [of 1024] b [of 1024] e
  have 4: "readable_part_size 1024 = Inr (PyStr ''1.00 KiB'')"
    by simp
  from readable_part_size_units [of 1536] b [of 1536] e
  have 5: "readable_part_size 1536 = Inr (PyStr ''1.50 KiB'')"
    by simp
  from readable_part_size_units [of 1048576] b [of 1048576] e
  have 6: "readable_part_size 1048576 = Inr (PyStr ''1.00 MiB'')"
    by simp
  from readable_part_size_units [of 1073741824] b [of 1073741824] e
  have 7: "readable_part_size 1073741824 = Inr (PyStr ''1.00 GiB'')"
    by simp
  from readable_part_size_units [of 1099511627776] b [of 1099511627776] e
  have 8: "readable_part_size 1099511627776 = Inr (PyStr ''1.00 TiB'')"
    by simp
  from 1 2 3 4 5 6 7 8 show ?thesis
    by (intro conjI)
qed


end
